theory Spec2Isabelle
  imports Complex_Main "HOL-Library.Word"
begin

section \<open>JavaScript values\<close>

text \<open>
  A JavaScript string is a sequence of UTF-16 code units. Literals of the source are
  ASCII, written \<open>js ''...''\<close>.
\<close>

type_synonym jsstring = "16 word list"

definition js :: "string \<Rightarrow> jsstring" where
  "js s = map of_char s"

text \<open>The exceptions the modelled code can raise.\<close>

datatype error =
    TypeError     \<comment> \<open>reading a property of \<open>undefined\<close> or \<open>null\<close>\<close>
  | URIError      \<comment> \<open>\<open>encodeURIComponent\<close> on a lone surrogate\<close>
  | NotSupported  \<comment> \<open>\<open>new Error("Not supported")\<close>\<close>

text \<open>
  \<open>String.prototype.substring(start, end)\<close> for non-negative integer arguments: both are
  clamped to the length and swapped when \<open>start > end\<close>. With one argument the end is
  the length.
\<close>

definition substring :: "jsstring \<Rightarrow> nat \<Rightarrow> nat \<Rightarrow> jsstring" where
  "substring s a b =
     (let a' = min a (length s); b' = min b (length s);
          lo = min a' b'; hi = max a' b'
      in take (hi - lo) (drop lo s))"

definition substring_from :: "jsstring \<Rightarrow> nat \<Rightarrow> jsstring" where
  "substring_from s a = substring s a (length s)"

text \<open>\<open>String.prototype.endsWith\<close>.\<close>

definition endsWith :: "jsstring \<Rightarrow> jsstring \<Rightarrow> bool" where
  "endsWith s t = (length t \<le> length s \<and> drop (length s - length t) s = t)"

section \<open>Signature help (signatureHelp.ts)\<close>

subsection \<open>The language-server payload\<close>

text \<open>
  The types of \<open>vscode-languageserver-protocol\<close> the code reads. An optional field is an
  \<open>option\<close>; \<open>activeSignature\<close> is compared with \<open>null\<close> by the code, so all three of
  \<open>null\<close>, \<open>undefined\<close> and a number are kept apart.
\<close>

datatype MarkupContent = MarkupContent jsstring jsstring   \<comment> \<open>\<open>kind\<close>, \<open>value\<close>\<close>

datatype documentation = DocString jsstring | DocMarkup MarkupContent

datatype parameter_label =
    LabelString jsstring        \<comment> \<open>\<open>string\<close>\<close>
  | LabelOffsets nat nat        \<comment> \<open>\<open>[uinteger, uinteger]\<close>\<close>

record ParameterInformation =
  param_label :: parameter_label
  param_documentation :: "documentation option"

record SignatureInformation =
  label :: jsstring
  documentation :: "documentation option"
  parameters :: "ParameterInformation list option"
  activeParameter :: "nat option"

datatype active_index = ActiveNull | ActiveUndefined | Index nat

record SignatureHelp =
  signatures :: "SignatureInformation list"
  activeSignature :: active_index

subsection \<open>Rendering\<close>

text \<open>The DOM nodes the rendering builds.\<close>

datatype node =
    Element jsstring jsstring "node list"   \<comment> \<open>tag name, \<open>className\<close>, children\<close>
  | TextNode jsstring

text \<open>
  The functions imported from \<open>./names\<close> and \<open>./documentation\<close> are not part of the
  modelled file; they are parameters of the rendering (\<open>wrapWithDocumentationButton\<close>
  with its \<open>intl\<close> argument already applied).
\<close>

record helpers =
  nameFromSignature :: "jsstring \<Rightarrow> jsstring"
  removeFullyQualifiedName :: "jsstring \<Rightarrow> jsstring"
  renderDocumentation :: "documentation option \<Rightarrow> bool \<Rightarrow> node"
  wrapWithDocumentationButton :: "node \<Rightarrow> jsstring \<Rightarrow> node"

definition formatHighlightedParameter ::
  "helpers \<Rightarrow> jsstring \<Rightarrow> nat \<Rightarrow> nat \<Rightarrow> documentation option \<Rightarrow> node" where
  "formatHighlightedParameter env lbl from to activeParameterDoc =
     (let before = substring lbl 0 from;
          ident = nameFromSignature env before;
          parameter = substring lbl from to;
          after = substring_from lbl to;
          before' = removeFullyQualifiedName env before;
          code = Element (js ''code'') []
                   [TextNode before',
                    Element (js ''span'') (js ''cm-signature-activeParameter'')
                      [TextNode parameter],
                    TextNode after];
          parent = Element (js ''div'') (js ''docs-markdown'')
                     [code, renderDocumentation env activeParameterDoc True]
      in wrapWithDocumentationButton env parent ident)"

text \<open>\<open>xs[i]\<close> on an array: \<open>undefined\<close> out of range.\<close>

definition at_index :: "'a list \<Rightarrow> nat \<Rightarrow> 'a option" where
  "at_index xs i = (if i < length xs then Some (xs ! i) else None)"

text \<open>
  \<open>formatSignatureHelp\<close>. Destructuring an \<open>undefined\<close> active signature raises a
  \<open>TypeError\<close>; a string label of the active parameter raises \<open>Error("Not supported")\<close>.
  \<open>a || b\<close> on the documentation takes \<open>b\<close> when \<open>a\<close> is \<open>undefined\<close> or the empty
  string (a \<open>MarkupContent\<close> object is truthy).
\<close>

definition doc_or :: "documentation option \<Rightarrow> documentation option \<Rightarrow> documentation option" where
  "doc_or a b = (case a of None \<Rightarrow> b
                 | Some (DocString s) \<Rightarrow> (if s = [] then b else a)
                 | Some (DocMarkup m) \<Rightarrow> a)"

definition formatSignatureHelp :: "helpers \<Rightarrow> SignatureHelp \<Rightarrow> error + node" where
  "formatSignatureHelp env help =
     (let activeSignature' =
            (case activeSignature help of
               ActiveNull \<Rightarrow> at_index (signatures help) 0
             | ActiveUndefined \<Rightarrow> None
             | Index i \<Rightarrow> at_index (signatures help) i)
      in case activeSignature' of
           None \<Rightarrow> Inl TypeError
         | Some sig \<Rightarrow>
             (let activeParameter' =
                    (case (activeParameter sig, parameters sig) of
                       (Some i, Some ps) \<Rightarrow> at_index ps i
                     | _ \<Rightarrow> None);
                  activeParameterLabel = map_option param_label activeParameter';
                  activeParameterDoc =
                    doc_or (case activeParameter' of None \<Rightarrow> None
                            | Some p \<Rightarrow> param_documentation p)
                           (documentation sig)
              in case activeParameterLabel of
                   Some (LabelOffsets from to) \<Rightarrow>
                     Inr (formatHighlightedParameter env (label sig) from to activeParameterDoc)
                 | Some (LabelString s) \<Rightarrow> Inl NotSupported
                 | None \<Rightarrow>
                     Inr (formatHighlightedParameter env (label sig)
                            (length (label sig)) (length (label sig)) activeParameterDoc)))"

subsection \<open>The tooltip field\<close>

text \<open>
  \<open>SignatureChangeEffect\<close> (fields \<open>pos\<close>, \<open>result\<close>) and \<open>SignatureHelpState\<close> (fields
  \<open>tooltip\<close>, \<open>result\<close>). The \<open>create\<close> function of a tooltip is a closure over the
  \<open>result\<close> it was built from: the record keeps that captured value, and \<open>create_dom\<close>
  runs the closure.
\<close>

record SignatureChangeEffect =
  effect_pos :: int
  effect_result :: "SignatureHelp option"

record Tooltip =
  pos :: int
  above :: bool
  create :: SignatureHelp

record SignatureHelpState =
  tooltip :: "Tooltip option"
  result :: "SignatureHelp option"

definition create_dom :: "helpers \<Rightarrow> Tooltip \<Rightarrow> error + node" where
  "create_dom env t =
     (case formatSignatureHelp env (create t) of
        Inl e \<Rightarrow> Inl e
      | Inr n \<Rightarrow> Inr (Element (js ''div'') (js ''cm-signature-tooltip'') [n]))"

definition reduceSignatureHelpState ::
  "SignatureHelpState \<Rightarrow> SignatureChangeEffect \<Rightarrow> SignatureHelpState" where
  "reduceSignatureHelpState state effect =
     (if tooltip state \<noteq> None \<and> effect_result effect = None then
        \<lparr>tooltip = None, result = None\<rparr>
      else case effect_result effect of
        Some r \<Rightarrow>
          \<lparr>tooltip = Some \<lparr>pos = effect_pos effect, above = True, create = r\<rparr>,
           result = Some r\<rparr>
      | None \<Rightarrow> state)"

text \<open>
  A transaction carries a list of state effects; \<open>effect.is(setSignatureHelpEffect)\<close>
  tells this file's effect from any other.
\<close>

datatype state_effect = setSignatureHelpEffect SignatureChangeEffect | OtherEffect

definition field_create :: SignatureHelpState where
  "field_create = \<lparr>tooltip = None, result = None\<rparr>"

fun field_update :: "SignatureHelpState \<Rightarrow> state_effect list \<Rightarrow> SignatureHelpState" where
  "field_update state [] = state"
| "field_update state (setSignatureHelpEffect v # effects) = reduceSignatureHelpState state v"
| "field_update state (OtherEffect # effects) = field_update state effects"

text \<open>The states the field can hold: the initial one and every update of one.\<close>

inductive field_state :: "SignatureHelpState \<Rightarrow> bool" where
  initial: "field_state field_create"
| update: "field_state s \<Longrightarrow> field_state (field_update s effects)"

subsection \<open>The view plugin\<close>

text \<open>
  \<open>triggerSignatureHelpRequest\<close> awaits the language server and dispatches one effect:
  the response on success, \<open>null\<close> when the request fails. The argument is the outcome of
  \<open>sendRequest\<close>.
\<close>

definition triggerSignatureHelpRequest ::
  "int \<Rightarrow> 'e + SignatureHelp option \<Rightarrow> state_effect list" where
  "triggerSignatureHelpRequest p response =
     (case response of
        Inr r \<Rightarrow> [setSignatureHelpEffect \<lparr>effect_pos = p, effect_result = r\<rparr>]
      | Inl e \<Rightarrow> [setSignatureHelpEffect \<lparr>effect_pos = p, effect_result = None\<rparr>])"

text \<open>
  What \<open>SignatureHelpView.update\<close> reads of a \<open>ViewUpdate\<close>: of each transaction, whether
  \<open>isUserEvent("input")\<close> holds and the texts \<open>iterChanges\<close> reports as inserted.
\<close>

record Transaction =
  isUserEvent_input :: bool
  changes :: "jsstring list"

record ViewUpdate =
  docChanged :: bool
  selectionSet :: bool
  transactions :: "Transaction list"

text \<open>
  \<open>update\<close> returns how many times it called \<open>triggerSignatureHelpRequest\<close>. With no
  transaction, \<open>last\<close> is \<open>undefined\<close> and \<open>last.isUserEvent\<close> raises.
\<close>

definition view_update :: "SignatureHelpState \<Rightarrow> ViewUpdate \<Rightarrow> error + nat" where
  "view_update field u =
     (if (docChanged u \<or> selectionSet u) \<and> tooltip field \<noteq> None then Inr 1
      else if docChanged u then
        (case at_index (transactions u) (length (transactions u) - 1) of
           None \<Rightarrow> Inl TypeError
         | Some last_tr \<Rightarrow>
             if isUserEvent_input last_tr
             then Inr (length (filter (\<lambda>inserted. endsWith inserted (js ''()'')) (changes last_tr)))
             else Inr 0)
      else Inr 0)"

section \<open>Settings (settings.ts)\<close>

subsection \<open>Values of type \<open>unknown\<close>\<close>

text \<open>
  A number is a double: only whether it is \<open>NaN\<close> or zero matters below. \<open>Finite 0\<close>
  stands for both zeros.
\<close>

datatype number = NaN | Infinity bool | Finite rat

text \<open>
  Every type a value of type \<open>unknown\<close> can have. An object is the list of its own data
  properties, in insertion order; the first binding of a name is the property.
\<close>

datatype jsvalue =
    Undefined
  | Null
  | Boolean bool
  | Number number
  | BigInt int
  | String jsstring
  | Symbol jsstring
  | Function
  | Array "jsvalue list"
  | Object "(jsstring \<times> jsvalue) list"

fun typeof :: "jsvalue \<Rightarrow> jsstring" where
  "typeof Undefined = js ''undefined''"
| "typeof Null = js ''object''"
| "typeof (Boolean b) = js ''boolean''"
| "typeof (Number n) = js ''number''"
| "typeof (BigInt i) = js ''bigint''"
| "typeof (String s) = js ''string''"
| "typeof (Symbol d) = js ''symbol''"
| "typeof Function = js ''function''"
| "typeof (Array xs) = js ''object''"
| "typeof (Object ps) = js ''object''"

text \<open>\<open>ToBoolean\<close>: what \<open>&&\<close>, \<open>!\<close> and \<open>!!\<close> test.\<close>

fun truthy :: "jsvalue \<Rightarrow> bool" where
  "truthy Undefined = False"
| "truthy Null = False"
| "truthy (Boolean b) = b"
| "truthy (Number n) = (n \<noteq> NaN \<and> n \<noteq> Finite 0)"
| "truthy (BigInt i) = (i \<noteq> 0)"
| "truthy (String s) = (s \<noteq> [])"
| "truthy (Symbol d) = True"
| "truthy Function = True"
| "truthy (Array xs) = True"
| "truthy (Object ps) = True"

text \<open>
  Reading a property by name. The names read below (\<open>languageId\<close>,
  \<open>codeStructureHighlight\<close>) are defined by no built-in prototype, so only an object's
  own properties can give a value other than \<open>undefined\<close>. Reading a property of \<open>null\<close>
  or \<open>undefined\<close> raises a \<open>TypeError\<close>.
\<close>

fun property_of :: "jsvalue \<Rightarrow> jsstring \<Rightarrow> jsvalue" where
  "property_of (Object ps) k = (case map_of ps k of None \<Rightarrow> Undefined | Some v \<Rightarrow> v)"
| "property_of v k = Undefined"

definition get_property :: "jsvalue \<Rightarrow> jsstring \<Rightarrow> error + jsvalue" where
  "get_property v k =
     (if v = Null \<or> v = Undefined then Inl TypeError else Inr (property_of v k))"

text \<open>\<open>s === v\<close> for a string \<open>s\<close>: only an equal string is strictly equal to it.\<close>

definition strict_equals_string :: "jsstring \<Rightarrow> jsvalue \<Rightarrow> bool" where
  "strict_equals_string s v = (v = String s)"

text \<open>\<open>Array.prototype.indexOf\<close> on an array of strings: strict equality, \<open>-1\<close> when absent.\<close>

fun indexOf_from :: "nat \<Rightarrow> jsstring list \<Rightarrow> jsvalue \<Rightarrow> int" where
  "indexOf_from i [] v = -1"
| "indexOf_from i (x # xs) v =
     (if strict_equals_string x v then int i else indexOf_from (Suc i) xs v)"

definition indexOf :: "jsstring list \<Rightarrow> jsvalue \<Rightarrow> int" where
  "indexOf xs v = indexOf_from 0 xs v"

subsection \<open>The settings and their validation\<close>

record Language =
  lang_id :: jsstring      \<comment> \<open>\<open>id\<close>\<close>
  lang_name :: jsstring    \<comment> \<open>\<open>name\<close>\<close>

text \<open>
  \<open>supportedLanguages\<close> after the module has loaded. \<open>stage\<close> (imported from
  \<open>../environment\<close>) and \<open>process.env.NODE_ENV\<close> are parameters.
\<close>

definition supportedLanguages :: "jsvalue \<Rightarrow> jsvalue \<Rightarrow> Language list" where
  "supportedLanguages stage node_env =
     \<lparr>lang_id = js ''en'', lang_name = js ''English''\<rparr> #
     (if stage = String (js ''REVIEW'') \<or> node_env \<noteq> String (js ''production'')
      then [\<lparr>lang_id = js ''lol'', lang_name = js ''Translation test''\<rparr>]
      else [])"

definition minimumFontSize :: rat where "minimumFontSize = 4"
definition maximumFontSize :: rat where "maximumFontSize = 154"
definition fontSizeStep :: rat where "fontSizeStep = 3"

definition codeStructureOptions :: "jsstring list" where
  "codeStructureOptions = [js ''none'', js ''full'', js ''simple'']"

record Settings =
  languageId :: jsstring
  fontSize :: number
  codeStructureHighlight :: jsstring

text \<open>The object a \<open>Settings\<close> value is at run time.\<close>

definition Settings_object :: "Settings \<Rightarrow> jsvalue" where
  "Settings_object s =
     Object [(js ''languageId'', String (languageId s)),
             (js ''fontSize'', Number (fontSize s)),
             (js ''codeStructureHighlight'', String (codeStructureHighlight s))]"

text \<open>
  \<open>defaultSettings\<close>; \<open>defaultCodeFontSizePt\<close> (imported from \<open>../deployment/misc\<close>) is a
  parameter.
\<close>

definition defaultSettings :: "jsvalue \<Rightarrow> jsvalue \<Rightarrow> number \<Rightarrow> Settings" where
  "defaultSettings stage node_env defaultCodeFontSizePt =
     \<lparr>languageId = lang_id (supportedLanguages stage node_env ! 0),
      fontSize = defaultCodeFontSizePt,
      codeStructureHighlight = js ''full''\<rparr>"

text \<open>
  \<open>isValidSettingsObject\<close>, with the array \<open>supportedLanguages\<close> it reads as its first
  argument.
\<close>

definition isValidSettingsObject :: "Language list \<Rightarrow> jsvalue \<Rightarrow> error + bool" where
  "isValidSettingsObject langs v =
     (if typeof v \<noteq> js ''object'' then Inr False
      else case get_property v (js ''languageId'') of
        Inl e \<Rightarrow> Inl e
      | Inr languageId' \<Rightarrow>
          if truthy languageId' \<and>
             find (\<lambda>x. strict_equals_string (lang_id x) languageId') langs = None
          then Inr False
          else case get_property v (js ''codeStructureHighlight'') of
            Inl e \<Rightarrow> Inl e
          | Inr codeStructureHighlight' \<Rightarrow>
              if indexOf codeStructureOptions codeStructureHighlight' = -1 then Inr False
              else Inr True)"

text \<open>
  The shape of \<open>Settings\<close> as the specification words it: an object whose \<open>languageId\<close>
  is the id of a supported language, whose \<open>fontSize\<close> is a number and whose
  \<open>codeStructureHighlight\<close> is one of the three presets.
\<close>

definition has_Settings_shape :: "Language list \<Rightarrow> jsvalue \<Rightarrow> bool" where
  "has_Settings_shape langs v =
     (case v of
        Object ps \<Rightarrow>
          (case property_of v (js ''languageId'') of
             String l \<Rightarrow> l \<in> set (map lang_id langs) | _ \<Rightarrow> False) \<and>
          (case property_of v (js ''fontSize'') of
             Number n \<Rightarrow> True | _ \<Rightarrow> False) \<and>
          (case property_of v (js ''codeStructureHighlight'') of
             String c \<Rightarrow> c \<in> set [js ''none'', js ''full'', js ''simple''] | _ \<Rightarrow> False)
      | _ \<Rightarrow> False)"

section \<open>The router (router-hooks.tsx)\<close>

subsection \<open>Built-in: \<open>encodeURIComponent\<close>\<close>

text \<open>
  Code units are \<open>16 word\<close>; code points and bytes are natural numbers. The functions
  follow the ECMAScript specification of \<open>Encode\<close> and \<open>CodePointAt\<close>.
\<close>

definition is_leading_surrogate :: "16 word \<Rightarrow> bool" where
  "is_leading_surrogate u = (0xD800 \<le> unat u \<and> unat u \<le> 0xDBFF)"

definition is_trailing_surrogate :: "16 word \<Rightarrow> bool" where
  "is_trailing_surrogate u = (0xDC00 \<le> unat u \<and> unat u \<le> 0xDFFF)"

definition UTF16SurrogatePairToCodePoint :: "16 word \<Rightarrow> 16 word \<Rightarrow> nat" where
  "UTF16SurrogatePairToCodePoint lead trail =
     (unat lead - 0xD800) * 0x400 + (unat trail - 0xDC00) + 0x10000"

text \<open>
  The characters \<open>encodeURIComponent\<close> leaves alone: ASCII letters, digits and
  \<open>- _ . ! ~ * ' ( )\<close>.
\<close>

definition unescaped_code :: "nat \<Rightarrow> bool" where
  "unescaped_code n =
     ((0x41 \<le> n \<and> n \<le> 0x5A) \<or> (0x61 \<le> n \<and> n \<le> 0x7A) \<or> (0x30 \<le> n \<and> n \<le> 0x39) \<or>
      n \<in> {0x2D, 0x5F, 0x2E, 0x21, 0x7E, 0x2A, 0x27, 0x28, 0x29})"

definition unescaped :: "16 word \<Rightarrow> bool" where
  "unescaped u = unescaped_code (unat u)"

text \<open>The UTF-8 encoding of a code point: one to four bytes.\<close>

definition utf8_encode_code_point :: "nat \<Rightarrow> nat list" where
  "utf8_encode_code_point c =
     (if c < 0x80 then [c]
      else if c < 0x800 then [0xC0 + c div 0x40, 0x80 + c mod 0x40]
      else if c < 0x10000 then
        [0xE0 + c div 0x1000, 0x80 + c div 0x40 mod 0x40, 0x80 + c mod 0x40]
      else
        [0xF0 + c div 0x40000, 0x80 + c div 0x1000 mod 0x40,
         0x80 + c div 0x40 mod 0x40, 0x80 + c mod 0x40])"

text \<open>A byte as \<open>%XX\<close>, with upper-case hexadecimal digits.\<close>

definition hex_digit :: "nat \<Rightarrow> 16 word" where
  "hex_digit n = of_nat (if n < 10 then 0x30 + n else 0x37 + n)"

definition percent_encode_octet :: "nat \<Rightarrow> jsstring" where
  "percent_encode_octet b = [0x25, hex_digit (b div 16), hex_digit (b mod 16)]"

definition percent_encode_code_point :: "nat \<Rightarrow> jsstring" where
  "percent_encode_code_point c = concat (map percent_encode_octet (utf8_encode_code_point c))"

text \<open>
  \<open>Encode\<close>, with the unescaped set of \<open>encodeURIComponent\<close>: a code unit of the set is
  copied; otherwise the code point at this position is read (a surrogate that is not
  part of a pair raises a \<open>URIError\<close>) and its UTF-8 bytes are percent-encoded.
\<close>

fun Encode :: "jsstring \<Rightarrow> error + jsstring" where
  "Encode [] = Inr []"
| "Encode (c # cs) =
     (if unescaped c then
        (case Encode cs of Inl e \<Rightarrow> Inl e | Inr r \<Rightarrow> Inr (c # r))
      else if is_trailing_surrogate c then Inl URIError
      else if is_leading_surrogate c then
        (case cs of
           [] \<Rightarrow> Inl URIError
         | d # ds \<Rightarrow>
             if is_trailing_surrogate d then
               (case Encode ds of
                  Inl e \<Rightarrow> Inl e
                | Inr r \<Rightarrow>
                    Inr (percent_encode_code_point (UTF16SurrogatePairToCodePoint c d) @ r))
             else Inl URIError)
      else
        (case Encode cs of
           Inl e \<Rightarrow> Inl e
         | Inr r \<Rightarrow> Inr (percent_encode_code_point (unat c) @ r)))"

definition encodeURIComponent :: "jsstring \<Rightarrow> error + jsstring" where
  "encodeURIComponent s = Encode s"

subsection \<open>Built-in: \<open>URLSearchParams\<close>\<close>

text \<open>
  The constructor converts its argument to a sequence of scalar values (a surrogate that
  is not part of a pair becomes U+FFFD), removes one leading \<open>?\<close>, encodes the rest as
  UTF-8 and runs the \<open>application/x-www-form-urlencoded\<close> parser of the URL standard on
  the bytes.
\<close>

fun to_scalar_values :: "jsstring \<Rightarrow> nat list" where
  "to_scalar_values [] = []"
| "to_scalar_values [c] =
     (if is_leading_surrogate c \<or> is_trailing_surrogate c then [0xFFFD] else [unat c])"
| "to_scalar_values (c # d # ds) =
     (if is_leading_surrogate c \<and> is_trailing_surrogate d then
        UTF16SurrogatePairToCodePoint c d # to_scalar_values ds
      else if is_leading_surrogate c \<or> is_trailing_surrogate c then
        0xFFFD # to_scalar_values (d # ds)
      else unat c # to_scalar_values (d # ds))"

definition utf8_encode :: "nat list \<Rightarrow> nat list" where
  "utf8_encode cs = concat (map utf8_encode_code_point cs)"

text \<open>Strictly splitting a byte sequence on a byte: one piece more than separators.\<close>

fun split_on :: "nat \<Rightarrow> nat list \<Rightarrow> nat list list" where
  "split_on sep [] = [[]]"
| "split_on sep (b # bs) =
     (if b = sep then [] # split_on sep bs
      else case split_on sep bs of
             [] \<Rightarrow> [[b]]
           | piece # pieces \<Rightarrow> (b # piece) # pieces)"

text \<open>Name and value of one piece: split at the first \<open>=\<close>, if there is one.\<close>

definition split_name_value :: "nat list \<Rightarrow> nat list \<times> nat list" where
  "split_name_value bytes =
     (if 0x3D \<in> set bytes
      then (takeWhile (\<lambda>b. b \<noteq> 0x3D) bytes, drop 1 (dropWhile (\<lambda>b. b \<noteq> 0x3D) bytes))
      else (bytes, []))"

definition plus_to_space :: "nat list \<Rightarrow> nat list" where
  "plus_to_space bytes = map (\<lambda>b. if b = 0x2B then 0x20 else b) bytes"

definition is_hex_digit :: "nat \<Rightarrow> bool" where
  "is_hex_digit b =
     ((0x30 \<le> b \<and> b \<le> 0x39) \<or> (0x41 \<le> b \<and> b \<le> 0x46) \<or> (0x61 \<le> b \<and> b \<le> 0x66))"

definition hex_value :: "nat \<Rightarrow> nat" where
  "hex_value b = (if b \<le> 0x39 then b - 0x30 else if b \<le> 0x46 then b - 0x37 else b - 0x57)"

text \<open>
  Percent-decoding: \<open>%\<close> followed by two hexadecimal digits is the byte they denote;
  every other byte stands for itself.
\<close>

fun percent_decode :: "nat list \<Rightarrow> nat list" where
  "percent_decode (b # h # l # bs) =
     (if b = 0x25 \<and> is_hex_digit h \<and> is_hex_digit l
      then (16 * hex_value h + hex_value l) # percent_decode bs
      else b # percent_decode (h # l # bs))"
| "percent_decode (b # bs) = b # percent_decode bs"
| "percent_decode [] = []"

text \<open>
  The UTF-8 decoder of the Encoding standard, errors replaced by U+FFFD. The state is
  the code point read so far, the bytes seen and needed, and the bounds of the next
  continuation byte. A byte that is no continuation ends the sequence with an error and
  is read again as the start of the next one.
\<close>

function utf8_decoder :: "nat \<Rightarrow> nat \<Rightarrow> nat \<Rightarrow> nat \<Rightarrow> nat \<Rightarrow> nat list \<Rightarrow> nat list" where
  "utf8_decoder code_point bytes_seen bytes_needed lower upper [] =
     (if bytes_needed \<noteq> 0 then [0xFFFD] else [])"
| "utf8_decoder code_point bytes_seen bytes_needed lower upper (b # bs) =
     (if bytes_needed = 0 then
        (if b \<le> 0x7F then b # utf8_decoder code_point bytes_seen bytes_needed lower upper bs
         else if 0xC2 \<le> b \<and> b \<le> 0xDF then
           utf8_decoder (b mod 0x20) bytes_seen 1 lower upper bs
         else if 0xE0 \<le> b \<and> b \<le> 0xEF then
           utf8_decoder (b mod 0x10) bytes_seen 2
             (if b = 0xE0 then 0xA0 else lower) (if b = 0xED then 0x9F else upper) bs
         else if 0xF0 \<le> b \<and> b \<le> 0xF4 then
           utf8_decoder (b mod 0x8) bytes_seen 3
             (if b = 0xF0 then 0x90 else lower) (if b = 0xF4 then 0x8F else upper) bs
         else 0xFFFD # utf8_decoder code_point bytes_seen bytes_needed lower upper bs)
      else if b < lower \<or> upper < b then
        0xFFFD # utf8_decoder 0 0 0 0x80 0xBF (b # bs)
      else if Suc bytes_seen \<noteq> bytes_needed then
        utf8_decoder (code_point * 0x40 + b mod 0x40) (Suc bytes_seen) bytes_needed 0x80 0xBF bs
      else (code_point * 0x40 + b mod 0x40) # utf8_decoder 0 0 0 0x80 0xBF bs)"
  by pat_completeness auto
termination
  by (relation "measure (\<lambda>(code_point, bytes_seen, bytes_needed, lower, upper, bs).
                  2 * length bs + (if bytes_needed = 0 then 0 else 1))") auto

definition utf8_decode :: "nat list \<Rightarrow> nat list" where
  "utf8_decode bytes = utf8_decoder 0 0 0 0x80 0xBF bytes"

text \<open>A scalar value as one or two UTF-16 code units.\<close>

definition utf16_encode_code_point :: "nat \<Rightarrow> jsstring" where
  "utf16_encode_code_point c =
     (if c < 0x10000 then [of_nat c]
      else [of_nat (0xD800 + (c - 0x10000) div 0x400),
            of_nat (0xDC00 + (c - 0x10000) mod 0x400)])"

definition utf16_encode :: "nat list \<Rightarrow> jsstring" where
  "utf16_encode cs = concat (map utf16_encode_code_point cs)"

definition decode_component :: "nat list \<Rightarrow> jsstring" where
  "decode_component bytes = utf16_encode (utf8_decode (percent_decode (plus_to_space bytes)))"

definition parse_urlencoded :: "nat list \<Rightarrow> (jsstring \<times> jsstring) list" where
  "parse_urlencoded input =
     map (\<lambda>bytes. case split_name_value bytes of
                    (name, val) \<Rightarrow> (decode_component name, decode_component val))
       (filter (\<lambda>bytes. bytes \<noteq> []) (split_on 0x26 input))"

definition URLSearchParams :: "jsstring \<Rightarrow> (jsstring \<times> jsstring) list" where
  "URLSearchParams init =
     (let s = to_scalar_values init;
          s' = (case s of [] \<Rightarrow> [] | c # cs \<Rightarrow> if c = 0x3F then cs else s)
      in parse_urlencoded (utf8_encode s'))"

text \<open>\<open>get(name)\<close>: the value of the first pair with that name, or \<open>null\<close>.\<close>

definition params_get :: "(jsstring \<times> jsstring) list \<Rightarrow> jsstring \<Rightarrow> jsstring option" where
  "params_get params name = map_of params name"

subsection \<open>The router state\<close>

record Anchor =
  anchor_id :: jsstring    \<comment> \<open>\<open>id\<close>\<close>

text \<open>
  \<open>keyof RouterState\<close>, and the values a property of the state can hold
  (\<open>Anchor | string\<close>; \<open>undefined\<close> is \<open>None\<close>). A state is the list of its own properties
  in insertion order, as \<open>Object.entries\<close> reports them.
\<close>

datatype key = tab | reference | explore

datatype param_value = StringValue jsstring | AnchorValue Anchor

type_synonym RouterState = "(key \<times> param_value option) list"

fun key_name :: "key \<Rightarrow> jsstring" where
  "key_name tab = js ''tab''"
| "key_name reference = js ''reference''"
| "key_name explore = js ''explore''"

text \<open>\<open>RouterParam\<close>: the private constructor allows the three static instances only.\<close>

datatype RouterParam = RouterParam (param_id: key)

definition RouterParam_tab :: RouterParam where "RouterParam_tab = RouterParam tab"
definition RouterParam_reference :: RouterParam where "RouterParam_reference = RouterParam reference"
definition RouterParam_explore :: RouterParam where "RouterParam_explore = RouterParam explore"

text \<open>\<open>RouterParam.get\<close>: \<open>state[this.id]\<close>, \<open>undefined\<close> when the property is absent.\<close>

definition get :: "RouterParam \<Rightarrow> RouterState \<Rightarrow> param_value option" where
  "get p state = (case map_of state (param_id p) of None \<Rightarrow> None | Some v \<Rightarrow> v)"

definition anchorForParam :: "jsstring option \<Rightarrow> Anchor option" where
  "anchorForParam param =
     (case param of
        None \<Rightarrow> None
      | Some s \<Rightarrow> if s \<noteq> [] then Some \<lparr>anchor_id = s\<rparr> else None)"

definition parse :: "jsstring \<Rightarrow> RouterState" where
  "parse search =
     (let params = URLSearchParams search in
      [(tab, map_option StringValue (params_get params (js ''tab''))),
       (reference, map_option AnchorValue (anchorForParam (params_get params (js ''reference'')))),
       (explore, map_option AnchorValue (anchorForParam (params_get params (js ''explore''))))])"

text \<open>\<open>serializeValue\<close>; on \<open>undefined\<close> the read of \<open>value.id\<close> raises.\<close>

definition serializeValue :: "param_value option \<Rightarrow> error + jsstring" where
  "serializeValue v =
     (case v of
        Some (StringValue s) \<Rightarrow> Inr s
      | Some (AnchorValue a) \<Rightarrow> Inr (anchor_id a)
      | None \<Rightarrow> Inl TypeError)"

text \<open>\<open>!!v\<close> on a property of the state: an object is truthy, a string unless empty.\<close>

definition value_truthy :: "param_value option \<Rightarrow> bool" where
  "value_truthy v =
     (case v of
        None \<Rightarrow> False
      | Some (StringValue s) \<Rightarrow> s \<noteq> []
      | Some (AnchorValue a) \<Rightarrow> True)"

text \<open>\<open>Array.prototype.join\<close>, and \<open>map\<close> with a callback that can raise.\<close>

fun join :: "jsstring \<Rightarrow> jsstring list \<Rightarrow> jsstring" where
  "join sep [] = []"
| "join sep [x] = x"
| "join sep (x # y # ys) = x @ sep @ join sep (y # ys)"

fun map_raising :: "('a \<Rightarrow> error + 'b) \<Rightarrow> 'a list \<Rightarrow> error + 'b list" where
  "map_raising f [] = Inr []"
| "map_raising f (x # xs) =
     (case f x of
        Inl e \<Rightarrow> Inl e
      | Inr y \<Rightarrow> (case map_raising f xs of Inl e \<Rightarrow> Inl e | Inr ys \<Rightarrow> Inr (y # ys)))"

definition query_entry :: "key \<times> param_value option \<Rightarrow> error + jsstring" where
  "query_entry kv =
     (case encodeURIComponent (key_name (fst kv)) of
        Inl e \<Rightarrow> Inl e
      | Inr k \<Rightarrow>
          (case serializeValue (snd kv) of
             Inl e \<Rightarrow> Inl e
           | Inr s \<Rightarrow>
               (case encodeURIComponent s of
                  Inl e \<Rightarrow> Inl e
                | Inr v \<Rightarrow> Inr (k @ js ''='' @ v))))"

text \<open>The query string that \<open>navigate\<close> builds from the new state.\<close>

definition navigate_query :: "RouterState \<Rightarrow> error + jsstring" where
  "navigate_query newState =
     (case map_raising query_entry (filter (\<lambda>kv. value_truthy (snd kv)) newState) of
        Inl e \<Rightarrow> Inl e
      | Inr parts \<Rightarrow> Inr (join (js ''&'') parts))"

text \<open>
  \<open>navigate\<close>: the URL pushed to the history (from the current URL up to its first \<open>?\<close>)
  and the new React state.
\<close>

definition navigate :: "jsstring \<Rightarrow> RouterState \<Rightarrow> error + (jsstring \<times> RouterState)" where
  "navigate location newState =
     (case navigate_query newState of
        Inl e \<Rightarrow> Inl e
      | Inr query \<Rightarrow>
          Inr (takeWhile (\<lambda>u. u \<noteq> 0x3F) location @ (if query \<noteq> [] then js ''?'' @ query else []),
               newState))"

text \<open>
  The object \<open>{ ...state, [param.id]: value }\<close>: the properties of \<open>state\<close> in their order,
  the one named \<open>param.id\<close> replaced in place, or added last when \<open>state\<close> has none.
\<close>

fun spread_with :: "RouterState \<Rightarrow> key \<Rightarrow> param_value option \<Rightarrow> RouterState" where
  "spread_with [] k v = [(k, v)]"
| "spread_with ((k', v') # state) k v =
     (if k' = k then (k, v) # state else (k', v') # spread_with state k v)"

text \<open>
  \<open>useRouterParam\<close>: the current value of the parameter and the state its setter hands to
  \<open>setState\<close>.
\<close>

definition navigateParam :: "RouterParam \<Rightarrow> RouterState \<Rightarrow> param_value option \<Rightarrow> RouterState" where
  "navigateParam param state v = spread_with state (param_id param) v"

definition useRouterParam ::
  "RouterParam \<Rightarrow> RouterState \<Rightarrow> param_value option \<times> (param_value option \<Rightarrow> RouterState)" where
  "useRouterParam param state = (get param state, navigateParam param state)"

text \<open>
  A string without a lone surrogate (\<open>String.prototype.isWellFormed\<close>), and the
  properties that the URL can mirror: \<open>tab\<close> holding a string, \<open>reference\<close> and \<open>explore\<close>
  holding an anchor, each either \<open>undefined\<close> or with a well-formed text that is not
  empty.
\<close>

fun well_formed :: "jsstring \<Rightarrow> bool" where
  "well_formed [] = True"
| "well_formed [c] = (\<not> is_leading_surrogate c \<and> \<not> is_trailing_surrogate c)"
| "well_formed (c # d # ds) =
     (if is_leading_surrogate c then is_trailing_surrogate d \<and> well_formed ds
      else \<not> is_trailing_surrogate c \<and> well_formed (d # ds))"

definition mirrored :: "key \<times> param_value option \<Rightarrow> bool" where
  "mirrored kv =
     (case snd kv of
        None \<Rightarrow> True
      | Some (StringValue s) \<Rightarrow> fst kv = tab \<and> s \<noteq> [] \<and> well_formed s
      | Some (AnchorValue a) \<Rightarrow>
          fst kv \<noteq> tab \<and> anchor_id a \<noteq> [] \<and> well_formed (anchor_id a))"

text \<open>
  The invariant of the tooltip field: a tooltip is shown exactly when a result is held.
\<close>

definition invariant :: "SignatureHelpState \<Rightarrow> bool" where
  "invariant s = ((tooltip s = None) = (result s = None))"

text \<open>Concrete values used to instantiate the theorems below.\<close>

definition example_help :: SignatureHelp where
  "example_help =
     \<lparr>signatures =
        [\<lparr>label = js ''print(x)'', documentation = None,
          parameters = Some [\<lparr>param_label = LabelOffsets 6 7, param_documentation = None\<rparr>],
          activeParameter = Some 0\<rparr>],
      activeSignature = Index 0\<rparr>"

definition example_help_string_label :: SignatureHelp where
  "example_help_string_label =
     \<lparr>signatures =
        [\<lparr>label = js ''print(x)'', documentation = None,
          parameters = Some [\<lparr>param_label = LabelString (js ''x''), param_documentation = None\<rparr>],
          activeParameter = Some 0\<rparr>],
      activeSignature = ActiveNull\<rparr>"

definition example_helpers :: helpers where
  "example_helpers =
     \<lparr>nameFromSignature = (\<lambda>before. before),
      removeFullyQualifiedName = (\<lambda>before. before),
      renderDocumentation = (\<lambda>doc firstParagraphOnly. TextNode []),
      wrapWithDocumentationButton = (\<lambda>parent ident. parent)\<rparr>"

definition example_update :: ViewUpdate where
  "example_update =
     \<lparr>docChanged = True, selectionSet = False,
      transactions = [\<lparr>isUserEvent_input = True, changes = [js ''print()'']\<rparr>]\<rparr>"

definition example_shown :: SignatureHelpState where
  "example_shown =
     field_update field_create
       [OtherEffect, setSignatureHelpEffect \<lparr>effect_pos = 3, effect_result = Some example_help\<rparr>]"

definition example_languages :: "Language list" where
  "example_languages = supportedLanguages (String (js ''REVIEW'')) (String (js ''production''))"

definition example_settings :: jsvalue where
  "example_settings =
     Settings_object
       \<lparr>languageId = js ''lol'', fontSize = Finite 14, codeStructureHighlight = js ''simple''\<rparr>"

definition example_incomplete :: jsvalue where
  "example_incomplete = Object [(js ''codeStructureHighlight'', String (js ''simple''))]"

text \<open>A Unicode scalar value: a code point that is no surrogate.\<close>

definition scalar :: "nat \<Rightarrow> bool" where
  "scalar c = (c < 0x110000 \<and> \<not> (0xD800 \<le> c \<and> c \<le> 0xDFFF))"

text \<open>What \<open>Encode\<close> emits for one code point.\<close>

definition encode_code_point :: "nat \<Rightarrow> jsstring" where
  "encode_code_point c = (if unescaped_code c then [of_nat c] else percent_encode_code_point c)"

text \<open>The code units an encoded component is made of: ASCII, and none of \<open>& + = ?\<close>.\<close>

definition component_char :: "16 word \<Rightarrow> bool" where
  "component_char u = (unat u < 0x80 \<and> unat u \<notin> {0x26, 0x2B, 0x3D, 0x3F})"

text \<open>The result of \<open>Encode\<close> on a well-formed string, code point by code point.\<close>

definition encoded :: "jsstring \<Rightarrow> jsstring" where
  "encoded v = concat (map encode_code_point (to_scalar_values v))"

text \<open>The text \<open>serializeValue\<close> gives for a property that is not \<open>undefined\<close>.\<close>

definition serialized :: "param_value option \<Rightarrow> jsstring" where
  "serialized v =
     (case v of Some (StringValue s) \<Rightarrow> s | Some (AnchorValue a) \<Rightarrow> anchor_id a | None \<Rightarrow> [])"

text \<open>The part of the query string that one property contributes.\<close>

definition query_part :: "key \<times> param_value option \<Rightarrow> jsstring" where
  "query_part kv = key_name (fst kv) @ js ''='' @ encoded (serialized (snd kv))"

text \<open>A state with a string, an anchor whose id is outside the Basic Multilingual Plane, and an undefined property.\<close>

definition example_state :: RouterState where
  "example_state =
     [(tab, Some (StringValue (js ''a b&c''))),
      (reference, Some (AnchorValue \<lparr>anchor_id = [0xD83D, 0xDE00]\<rparr>)),
      (explore, None)]"

section \<open>Properties of signature help\<close>

lemma tooltip_reduce:
  "tooltip (reduceSignatureHelpState s e) =
     (case effect_result e of None \<Rightarrow> None
      | Some r \<Rightarrow> Some \<lparr>pos = effect_pos e, above = True, create = r\<rparr>)"
  by (cases "tooltip s") (simp_all add: reduceSignatureHelpState_def split: option.splits)

lemma invariant_create: "invariant field_create"
  by (simp add: invariant_def field_create_def)

lemma invariant_reduce: "invariant s \<Longrightarrow> invariant (reduceSignatureHelpState s e)"
  by (simp add: invariant_def reduceSignatureHelpState_def split: option.splits)

lemma invariant_update: "invariant s \<Longrightarrow> invariant (field_update s effects)"
  by (induction s effects rule: field_update.induct) (simp_all add: invariant_reduce)

lemma invariant_field_state: "field_state s \<Longrightarrow> invariant s"
proof (induction rule: field_state.induct)
  case initial
  show ?case by (rule invariant_create)
next
  case (update s effects)
  then show ?case by (simp add: invariant_update)
qed

lemma reduce_invariant_eq:
  assumes "invariant s"
  shows "reduceSignatureHelpState s e =
     (case effect_result e of
        Some r \<Rightarrow>
          \<lparr>tooltip = Some \<lparr>pos = effect_pos e, above = True, create = r\<rparr>, result = Some r\<rparr>
      | None \<Rightarrow> \<lparr>tooltip = None, result = None\<rparr>)"
  using assms
  by (cases "tooltip s"; cases "result s")
     (auto simp add: invariant_def reduceSignatureHelpState_def split: option.splits)

lemma field_state_example_shown: "field_state example_shown"
  unfolding example_shown_def by (rule field_state.update [OF field_state.initial])

lemma example_shown_eq:
  "example_shown =
     \<lparr>tooltip = Some \<lparr>pos = 3, above = True, create = example_help\<rparr>,
      result = Some example_help\<rparr>"
  by (simp add: example_shown_def field_create_def reduceSignatureHelpState_def)

text \<open>
  C1. A failed signature-help request clears the tooltip: whatever the state of the
  tooltip field, reducing it with an effect whose result is \<open>null\<close> gives a state whose
  tooltip is \<open>null\<close>; and the effect that \<open>triggerSignatureHelpRequest\<close> dispatches when
  the request fails (error \<open>err\<close>) is such an effect, so the field's update clears the
  tooltip.
\<close>

theorem failed_request_clears_tooltip:
  "tooltip (reduceSignatureHelpState s \<lparr>effect_pos = p, effect_result = None\<rparr>) = None \<and>
   tooltip (field_update s (triggerSignatureHelpRequest p (Inl err))) = None"
  by (simp add: tooltip_reduce triggerSignatureHelpRequest_def)

text \<open>
  C2. Last response wins. The tooltip that \<open>reduceSignatureHelpState\<close> produces depends
  only on the effect, for any two prior states at all; and for any two states the tooltip
  field can hold, the whole resulting state depends only on the effect: a non-null result
  installs that result with a tooltip at the effect's position, a null result gives the
  cleared state.
\<close>

theorem last_response_wins:
  "tooltip (reduceSignatureHelpState s1 e) = tooltip (reduceSignatureHelpState s2 e) \<and>
   (field_state s1 \<and> field_state s2 \<longrightarrow>
      reduceSignatureHelpState s1 e = reduceSignatureHelpState s2 e \<and>
      reduceSignatureHelpState s1 e =
        (case effect_result e of
           Some r \<Rightarrow>
             \<lparr>tooltip = Some \<lparr>pos = effect_pos e, above = True, create = r\<rparr>,
              result = Some r\<rparr>
         | None \<Rightarrow> \<lparr>tooltip = None, result = None\<rparr>))"
  by (simp add: tooltip_reduce reduce_invariant_eq invariant_field_state)

theorem last_response_wins_witness:
  "field_state field_create \<and> field_state example_shown \<and> field_create \<noteq> example_shown \<and>
   reduceSignatureHelpState field_create \<lparr>effect_pos = 5, effect_result = None\<rparr> =
   reduceSignatureHelpState example_shown \<lparr>effect_pos = 5, effect_result = None\<rparr> \<and>
   reduceSignatureHelpState field_create \<lparr>effect_pos = 5, effect_result = None\<rparr> =
     \<lparr>tooltip = None, result = None\<rparr>"
proof -
  have a: "field_state field_create" by (rule field_state.initial)
  have b: "field_state example_shown" by (rule field_state_example_shown)
  have c: "field_create \<noteq> example_shown"
    by (simp add: example_shown_eq field_create_def)
  have d: "reduceSignatureHelpState field_create \<lparr>effect_pos = 5, effect_result = None\<rparr> =
     reduceSignatureHelpState example_shown \<lparr>effect_pos = 5, effect_result = None\<rparr> \<and>
   reduceSignatureHelpState field_create \<lparr>effect_pos = 5, effect_result = None\<rparr> =
     \<lparr>tooltip = None, result = None\<rparr>"
  proof -
    note w = last_response_wins
               [of field_create "\<lparr>effect_pos = 5, effect_result = None\<rparr>" example_shown]
    from w a b
    have "reduceSignatureHelpState field_create \<lparr>effect_pos = 5, effect_result = None\<rparr> =
          reduceSignatureHelpState example_shown \<lparr>effect_pos = 5, effect_result = None\<rparr>"
      by blast
    moreover from w a b
    have "reduceSignatureHelpState field_create \<lparr>effect_pos = 5, effect_result = None\<rparr> =
          (case effect_result \<lparr>effect_pos = 5, effect_result = None\<rparr> of
             Some r \<Rightarrow>
               \<lparr>tooltip = Some \<lparr>pos = effect_pos \<lparr>effect_pos = 5, effect_result = None\<rparr>,
                                above = True, create = r\<rparr>,
                result = Some r\<rparr>
           | None \<Rightarrow> \<lparr>tooltip = None, result = None\<rparr>)"
      by blast
    then have "reduceSignatureHelpState field_create \<lparr>effect_pos = 5, effect_result = None\<rparr> =
          \<lparr>tooltip = None, result = None\<rparr>"
      by simp
    ultimately show ?thesis by blast
  qed
  from a b c d show ?thesis by blast
qed

text \<open>
  C8. In every state the tooltip field can hold, \<open>tooltip\<close> is \<open>null\<close> if and only if
  \<open>result\<close> is \<open>null\<close>: the initial state satisfies this, \<open>reduceSignatureHelpState\<close>
  and the field's update preserve it for every effect and every list of effects, and so
  it holds of every reachable state.
\<close>

theorem tooltip_null_iff_result_null:
  "invariant field_create \<and>
   (invariant s \<longrightarrow> invariant (reduceSignatureHelpState s e)) \<and>
   (invariant s \<longrightarrow> invariant (field_update s effects)) \<and>
   (field_state s \<longrightarrow> (tooltip s = None) = (result s = None))"
proof -
  have "field_state s \<longrightarrow> (tooltip s = None) = (result s = None)"
    using invariant_field_state [of s] by (simp add: invariant_def)
  then show ?thesis
    by (simp add: invariant_create invariant_reduce invariant_update)
qed

theorem tooltip_null_iff_result_null_witness:
  "invariant example_shown \<and>
   invariant (reduceSignatureHelpState example_shown \<lparr>effect_pos = 0, effect_result = None\<rparr>) \<and>
   invariant (field_update example_shown
     [setSignatureHelpEffect \<lparr>effect_pos = 0, effect_result = None\<rparr>]) \<and>
   field_state example_shown \<and> tooltip example_shown \<noteq> None \<and> result example_shown \<noteq> None"
proof -
  have a: "invariant example_shown"
    by (simp add: invariant_def example_shown_eq)
  have b: "field_state example_shown" by (rule field_state_example_shown)
  from tooltip_null_iff_result_null
         [of example_shown "\<lparr>effect_pos = 0, effect_result = None\<rparr>"
             "[setSignatureHelpEffect \<lparr>effect_pos = 0, effect_result = None\<rparr>]"] a b
  show ?thesis by (simp add: example_shown_eq)
qed

text \<open>
  C7. \<open>SignatureHelpView.update\<close> calls \<open>triggerSignatureHelpRequest\<close> no time at all on a
  view update in which neither \<open>docChanged\<close> nor \<open>selectionSet\<close> holds (and it does not
  fail there); whenever it issues at least one request, the document changed or the
  selection was set.
\<close>

theorem request_only_on_change:
  "(\<not> docChanged u \<and> \<not> selectionSet u \<longrightarrow> view_update f u = Inr 0) \<and>
   (view_update f u = Inr (Suc n) \<longrightarrow> docChanged u \<or> selectionSet u)"
  by (auto simp add: view_update_def)

theorem request_only_on_change_witness:
  "view_update example_shown \<lparr>docChanged = False, selectionSet = False, transactions = []\<rparr>
     = Inr 0 \<and>
   view_update field_create example_update = Inr (Suc 0) \<and>
   (docChanged example_update \<or> selectionSet example_update)"
proof -
  have a: "view_update field_create example_update = Inr (Suc 0)"
    by (simp add: view_update_def example_update_def field_create_def at_index_def
          endsWith_def js_def)
  have b: "view_update example_shown
             \<lparr>docChanged = False, selectionSet = False, transactions = []\<rparr> = Inr 0"
    using request_only_on_change
            [of "\<lparr>docChanged = False, selectionSet = False, transactions = []\<rparr>" example_shown]
    by simp
  have c: "docChanged example_update \<or> selectionSet example_update"
    using request_only_on_change [of example_update field_create 0] a by blast
  from a b c show ?thesis by blast
qed

text \<open>
  C9. Rendering is partial over the payload. When the active signature (the one at
  index \<open>activeSignature\<close>, or the first when \<open>activeSignature\<close> is \<open>null\<close>) has an active
  parameter whose label is a string, \<open>formatSignatureHelp\<close> throws
  \<open>Error("Not supported")\<close>. When the \<open>signatures\<close> array is empty, the unguarded read of
  the active signature is \<open>undefined\<close> and \<open>formatSignatureHelp\<close> ends in an error (the
  \<open>TypeError\<close> of destructuring \<open>undefined\<close>), never in a node.
\<close>

theorem formatSignatureHelp_partial:
  "(((activeSignature help = ActiveNull \<and> i = 0) \<or> activeSignature help = Index i) \<and>
    i < length (signatures help) \<and>
    activeParameter (signatures help ! i) = Some j \<and>
    parameters (signatures help ! i) = Some ps \<and>
    j < length ps \<and>
    param_label (ps ! j) = LabelString s
    \<longrightarrow> formatSignatureHelp env help = Inl NotSupported) \<and>
   (signatures help = [] \<longrightarrow> formatSignatureHelp env help = Inl TypeError)"
  by (auto simp add: formatSignatureHelp_def at_index_def split: active_index.splits)

theorem formatSignatureHelp_partial_witness:
  "formatSignatureHelp example_helpers example_help_string_label = Inl NotSupported \<and>
   formatSignatureHelp example_helpers \<lparr>signatures = [], activeSignature = ActiveNull\<rparr> = Inl TypeError"
proof -
  have a: "formatSignatureHelp example_helpers example_help_string_label = Inl NotSupported"
    using formatSignatureHelp_partial
            [of example_help_string_label 0 0
                "[\<lparr>param_label = LabelString (js ''x''), param_documentation = None\<rparr>]"
                "js ''x''" example_helpers]
    by (simp add: example_help_string_label_def)
  have b: "formatSignatureHelp example_helpers \<lparr>signatures = [], activeSignature = ActiveNull\<rparr> = Inl TypeError"
    using formatSignatureHelp_partial
            [of "\<lparr>signatures = [], activeSignature = ActiveNull\<rparr>" _ _ _ _ example_helpers]
    by simp
  from a b show ?thesis by simp
qed

section \<open>Properties of the settings validation\<close>

lemma indexOf_from_absent:
  "(indexOf_from i xs v = -1) = (\<forall>x \<in> set xs. v \<noteq> String x)"
  by (induction xs arbitrary: i) (auto simp add: strict_equals_string_def)

lemma indexOf_absent: "(indexOf xs v = -1) = (\<forall>x \<in> set xs. v \<noteq> String x)"
  by (simp add: indexOf_def indexOf_from_absent)

lemma find_language_None:
  "(find (\<lambda>x. strict_equals_string (lang_id x) v) langs = None) =
     (\<forall>l \<in> set langs. v \<noteq> String (lang_id l))"
  by (auto simp add: find_None_iff strict_equals_string_def)

lemma typeof_object:
  "(typeof v = js ''object'') = (v = Null \<or> (\<exists>xs. v = Array xs) \<or> (\<exists>ps. v = Object ps))"
  by (cases v) (simp_all add: js_def)

text \<open>What the validator computes on every value but \<open>null\<close>.\<close>

lemma isValidSettingsObject_nonnull:
  assumes "v \<noteq> Null"
  shows "isValidSettingsObject langs v =
     Inr (typeof v = js ''object'' \<and>
          (truthy (property_of v (js ''languageId'')) \<longrightarrow>
             (\<exists>l \<in> set langs. property_of v (js ''languageId'') = String (lang_id l))) \<and>
          (\<exists>c \<in> set codeStructureOptions.
             property_of v (js ''codeStructureHighlight'') = String c))"
proof (cases "typeof v = js ''object''")
  case False
  then show ?thesis by (simp add: isValidSettingsObject_def)
next
  case True
  with assms have "v \<noteq> Undefined" by (auto simp add: typeof_object)
  with assms True show ?thesis
    by (auto simp add: isValidSettingsObject_def get_property_def indexOf_absent
          find_language_None)
qed

lemma isValidSettingsObject_null: "isValidSettingsObject langs Null = Inl TypeError"
  by (simp add: isValidSettingsObject_def get_property_def)

lemma shape_is_valid:
  "has_Settings_shape langs v \<Longrightarrow> isValidSettingsObject langs v = Inr True"
  by (cases v)
     (auto simp add: has_Settings_shape_def isValidSettingsObject_nonnull codeStructureOptions_def
        split: option.splits jsvalue.splits)

lemma example_languages_eq:
  "example_languages =
     [\<lparr>lang_id = js ''en'', lang_name = js ''English''\<rparr>,
      \<lparr>lang_id = js ''lol'', lang_name = js ''Translation test''\<rparr>]"
  by (simp add: example_languages_def supportedLanguages_def)

text \<open>
  C3, as amended. \<open>isValidSettingsObject\<close> returns \<open>false\<close>, without failing, for every
  value whose \<open>typeof\<close> is not \<open>"object"\<close>, for every object other than \<open>null\<close> whose
  \<open>languageId\<close> is truthy and not the id of a supported language, and for every object
  other than \<open>null\<close> whose \<open>codeStructureHighlight\<close> is not one of \<open>"none"\<close>, \<open>"full"\<close>,
  \<open>"simple"\<close>.
\<close>

theorem malformed_settings_rejected:
  "(typeof v \<noteq> js ''object'' \<longrightarrow> isValidSettingsObject langs v = Inr False) \<and>
   (typeof v = js ''object'' \<and> v \<noteq> Null \<and>
    truthy (property_of v (js ''languageId'')) \<and>
    (\<forall>l \<in> set langs. property_of v (js ''languageId'') \<noteq> String (lang_id l))
      \<longrightarrow> isValidSettingsObject langs v = Inr False) \<and>
   (typeof v = js ''object'' \<and> v \<noteq> Null \<and>
    (\<forall>c \<in> set [js ''none'', js ''full'', js ''simple''].
       property_of v (js ''codeStructureHighlight'') \<noteq> String c)
      \<longrightarrow> isValidSettingsObject langs v = Inr False)"
proof (cases "v = Null")
  case True
  then show ?thesis by (simp add: js_def)
next
  case False
  then show ?thesis
    by (auto simp add: isValidSettingsObject_nonnull codeStructureOptions_def)
qed

theorem malformed_settings_rejected_witness:
  "isValidSettingsObject example_languages (String (js ''{}'')) = Inr False \<and>
   isValidSettingsObject example_languages
     (Object [(js ''languageId'', String (js ''fr'')),
              (js ''fontSize'', Number (Finite 14)),
              (js ''codeStructureHighlight'', String (js ''full''))]) = Inr False \<and>
   isValidSettingsObject example_languages
     (Object [(js ''languageId'', String (js ''en'')),
              (js ''fontSize'', Number (Finite 14)),
              (js ''codeStructureHighlight'', String (js ''fancy''))]) = Inr False"
proof -
  have a: "isValidSettingsObject example_languages (String (js ''{}'')) = Inr False"
    using malformed_settings_rejected [of "String (js ''{}'')" example_languages]
    by (simp add: js_def)
  have b: "isValidSettingsObject example_languages
     (Object [(js ''languageId'', String (js ''fr'')),
              (js ''fontSize'', Number (Finite 14)),
              (js ''codeStructureHighlight'', String (js ''full''))]) = Inr False"
    using malformed_settings_rejected
            [of "Object [(js ''languageId'', String (js ''fr'')),
                         (js ''fontSize'', Number (Finite 14)),
                         (js ''codeStructureHighlight'', String (js ''full''))]"
                example_languages]
    by (simp add: example_languages_eq js_def)
  have c: "isValidSettingsObject example_languages
     (Object [(js ''languageId'', String (js ''en'')),
              (js ''fontSize'', Number (Finite 14)),
              (js ''codeStructureHighlight'', String (js ''fancy''))]) = Inr False"
    using malformed_settings_rejected
            [of "Object [(js ''languageId'', String (js ''en'')),
                         (js ''fontSize'', Number (Finite 14)),
                         (js ''codeStructureHighlight'', String (js ''fancy''))]"
                example_languages]
    by (simp add: js_def)
  from a b c show ?thesis by blast
qed

text \<open>
  The claim C3 as stated fails: an object with no \<open>languageId\<close> and no \<open>fontSize\<close> does not
  have the shape of \<open>Settings\<close> and is accepted; and on \<open>null\<close>, whose \<open>typeof\<close> is
  \<open>"object"\<close>, the validator fails with a \<open>TypeError\<close> instead of returning \<open>false\<close>.
\<close>

theorem malformed_settings_accepted:
  "\<not> has_Settings_shape example_languages example_incomplete \<and>
   isValidSettingsObject example_languages example_incomplete = Inr True \<and>
   \<not> has_Settings_shape example_languages Null \<and>
   isValidSettingsObject example_languages Null = Inl TypeError"
  by (simp add: isValidSettingsObject_null isValidSettingsObject_nonnull has_Settings_shape_def
        example_incomplete_def codeStructureOptions_def js_def)

text \<open>
  C6. Every value that has the shape of \<open>Settings\<close> (\<open>languageId\<close> the id of a supported
  language, \<open>fontSize\<close> a number, \<open>codeStructureHighlight\<close> one of the three presets) is
  accepted by \<open>isValidSettingsObject\<close>; in particular \<open>defaultSettings\<close> is, whatever the
  build stage and the default font size.
\<close>

theorem wellformed_settings_accepted:
  "(has_Settings_shape langs v \<longrightarrow> isValidSettingsObject langs v = Inr True) \<and>
   isValidSettingsObject (supportedLanguages stage node_env)
     (Settings_object (defaultSettings stage node_env defaultCodeFontSizePt)) = Inr True"
proof -
  have "has_Settings_shape (supportedLanguages stage node_env)
          (Settings_object (defaultSettings stage node_env defaultCodeFontSizePt))"
    by (simp add: has_Settings_shape_def Settings_object_def defaultSettings_def
          supportedLanguages_def js_def)
  then show ?thesis by (simp add: shape_is_valid)
qed

theorem wellformed_settings_accepted_witness:
  "has_Settings_shape example_languages example_settings \<and>
   isValidSettingsObject example_languages example_settings = Inr True"
proof -
  have a: "has_Settings_shape example_languages example_settings"
    by (simp add: has_Settings_shape_def example_settings_def Settings_object_def
          example_languages_eq js_def)
  with wellformed_settings_accepted [of example_languages example_settings]
  show ?thesis by blast
qed

text \<open>
  C10. The validator does not require completeness: the object
  \<open>{ codeStructureHighlight: "full" }\<close>, which has neither \<open>languageId\<close> nor \<open>fontSize\<close>, is
  accepted; and \<open>fontSize\<close> is never looked at: two objects that differ only in their
  \<open>fontSize\<close> property (present or not, a number in or out of range, or no number at all)
  get the same answer.
\<close>

theorem validator_ignores_fontSize:
  "isValidSettingsObject langs (Object [(js ''codeStructureHighlight'', String (js ''full''))])
     = Inr True \<and>
   ((\<forall>k. k \<noteq> js ''fontSize'' \<longrightarrow> map_of ps k = map_of ps' k) \<longrightarrow>
      isValidSettingsObject langs (Object ps) = isValidSettingsObject langs (Object ps'))"
proof -
  have a: "isValidSettingsObject langs
             (Object [(js ''codeStructureHighlight'', String (js ''full''))]) = Inr True"
    by (simp add: isValidSettingsObject_nonnull codeStructureOptions_def js_def)
  have b: "isValidSettingsObject langs (Object ps) = isValidSettingsObject langs (Object ps')"
    if h: "\<forall>k. k \<noteq> js ''fontSize'' \<longrightarrow> map_of ps k = map_of ps' k"
  proof -
    have "js ''languageId'' \<noteq> js ''fontSize''"
      and "js ''codeStructureHighlight'' \<noteq> js ''fontSize''"
      by (simp_all add: js_def)
    with h have "map_of ps (js ''languageId'') = map_of ps' (js ''languageId'')"
      and "map_of ps (js ''codeStructureHighlight'') = map_of ps' (js ''codeStructureHighlight'')"
      by blast+
    then show ?thesis by (simp add: isValidSettingsObject_nonnull)
  qed
  from a b show ?thesis by blast
qed

theorem validator_ignores_fontSize_witness:
  "minimumFontSize \<le> 14 \<and> 14 \<le> maximumFontSize \<and> maximumFontSize < 1000 \<and>
   isValidSettingsObject example_languages
     (Object [(js ''languageId'', String (js ''en'')),
              (js ''fontSize'', Number (Finite 1000)),
              (js ''codeStructureHighlight'', String (js ''none''))]) =
   isValidSettingsObject example_languages
     (Object [(js ''languageId'', String (js ''en'')),
              (js ''fontSize'', Number (Finite 14)),
              (js ''codeStructureHighlight'', String (js ''none''))]) \<and>
   isValidSettingsObject example_languages
     (Object [(js ''languageId'', String (js ''en'')),
              (js ''fontSize'', Number (Finite 14)),
              (js ''codeStructureHighlight'', String (js ''none''))]) = Inr True"
proof -
  have a: "\<forall>k. k \<noteq> js ''fontSize'' \<longrightarrow>
     map_of [(js ''languageId'', String (js ''en'')),
             (js ''fontSize'', Number (Finite 1000)),
             (js ''codeStructureHighlight'', String (js ''none''))] k =
     map_of [(js ''languageId'', String (js ''en'')),
             (js ''fontSize'', Number (Finite 14)),
             (js ''codeStructureHighlight'', String (js ''none''))] k"
    by simp
  have b: "isValidSettingsObject example_languages
     (Object [(js ''languageId'', String (js ''en'')),
              (js ''fontSize'', Number (Finite 14)),
              (js ''codeStructureHighlight'', String (js ''none''))]) = Inr True"
    by (simp add: isValidSettingsObject_nonnull codeStructureOptions_def example_languages_eq
          js_def)
  have c: "minimumFontSize \<le> 14 \<and> 14 \<le> maximumFontSize \<and> maximumFontSize < 1000"
    by (simp add: minimumFontSize_def maximumFontSize_def)
  from validator_ignores_fontSize
         [of example_languages
             "[(js ''languageId'', String (js ''en'')),
               (js ''fontSize'', Number (Finite 1000)),
               (js ''codeStructureHighlight'', String (js ''none''))]"
             "[(js ''languageId'', String (js ''en'')),
               (js ''fontSize'', Number (Finite 14)),
               (js ''codeStructureHighlight'', String (js ''none''))]"] a b c
  show ?thesis by blast
qed

section \<open>Properties of the router\<close>

subsection \<open>The setter of a router parameter\<close>

lemma map_of_spread_with: "map_of (spread_with state k v) = (map_of state)(k \<mapsto> v)"
  by (induction state k v rule: spread_with.induct) auto

text \<open>
  C4. Setting a router parameter preserves the other parameters: the state that the
  setter returned by \<open>useRouterParam(p)\<close> builds from the state \<open>s\<close> and the new value \<open>v\<close>
  (\<open>undefined\<close> included) and hands to \<open>setState\<close> has \<open>v\<close> for \<open>p\<close> and, for every other
  router parameter, the value it has in \<open>s\<close>.
\<close>

theorem setter_preserves_other_parameters:
  "get q (snd (useRouterParam p state) v) = (if q = p then v else get q state)"
  by (cases p; cases q)
     (simp add: useRouterParam_def navigateParam_def get_def map_of_spread_with)

subsection \<open>UTF-8: decoding inverts encoding\<close>

lemma mod_add_multiple: "d < n \<Longrightarrow> (q * n + d) mod n = (d::nat)"
  by simp

lemma decoder_lead2:
  "0xC2 \<le> b \<Longrightarrow> b \<le> 0xDF \<Longrightarrow>
   utf8_decoder cp seen 0 lo hi (b # bs) = utf8_decoder (b mod 0x20) seen 1 lo hi bs"
  by simp

lemma decoder_lead3:
  "0xE0 \<le> b \<Longrightarrow> b \<le> 0xEF \<Longrightarrow>
   utf8_decoder cp seen 0 lo hi (b # bs) =
   utf8_decoder (b mod 0x10) seen 2
     (if b = 0xE0 then 0xA0 else lo) (if b = 0xED then 0x9F else hi) bs"
  by simp

lemma decoder_lead4:
  "0xF0 \<le> b \<Longrightarrow> b \<le> 0xF4 \<Longrightarrow>
   utf8_decoder cp seen 0 lo hi (b # bs) =
   utf8_decoder (b mod 0x8) seen 3
     (if b = 0xF0 then 0x90 else lo) (if b = 0xF4 then 0x8F else hi) bs"
  by simp

lemma decoder_continue:
  "needed \<noteq> 0 \<Longrightarrow> lo \<le> b \<Longrightarrow> b \<le> hi \<Longrightarrow> Suc seen \<noteq> needed \<Longrightarrow>
   utf8_decoder cp seen needed lo hi (b # bs) =
   utf8_decoder (cp * 0x40 + b mod 0x40) (Suc seen) needed 0x80 0xBF bs"
  by simp

lemma decoder_last:
  "needed \<noteq> 0 \<Longrightarrow> lo \<le> b \<Longrightarrow> b \<le> hi \<Longrightarrow> Suc seen = needed \<Longrightarrow>
   utf8_decoder cp seen needed lo hi (b # bs) =
   (cp * 0x40 + b mod 0x40) # utf8_decoder 0 0 0 0x80 0xBF bs"
  by simp

text \<open>
  From here on the decoder is unfolded through the step lemmas only: its defining
  equation would be unfolded again and again on a symbolic byte.
\<close>

declare utf8_decoder.simps [simp del]

lemma continuation_mod: "m < 0x40 \<Longrightarrow> (0x80 + m) mod 0x40 = (m::nat)"
  using mod_add_multiple [of m 64 2] by simp

lemma decoder_ascii:
  "b \<le> 0x7F \<Longrightarrow>
   utf8_decoder cp seen 0 lo hi (b # bs) = b # utf8_decoder cp seen 0 lo hi bs"
  by (simp add: utf8_decoder.simps)

lemma utf8_roundtrip_1:
  "c < 0x80 \<Longrightarrow>
   utf8_decoder 0 0 0 0x80 0xBF (utf8_encode_code_point c @ rest) =
   c # utf8_decoder 0 0 0 0x80 0xBF rest"
  by (simp add: utf8_encode_code_point_def decoder_ascii)

lemma utf8_roundtrip_2:
  assumes "0x80 \<le> c" "c < 0x800"
  shows "utf8_decoder 0 0 0 0x80 0xBF (utf8_encode_code_point c @ rest) =
         c # utf8_decoder 0 0 0 0x80 0xBF rest"
proof -
  define d where "d = c div 0x40"
  define m where "m = c mod 0x40"
  have c: "c = d * 0x40 + m" and m: "m < 0x40" by (simp_all add: d_def m_def)
  from assms c m have d: "2 \<le> d" "d < 0x20" by linarith+
  have enc: "utf8_encode_code_point c = [0xC0 + d, 0x80 + m]"
    using assms by (simp add: utf8_encode_code_point_def d_def m_def)
  have a: "(0xC0 + d) mod 0x20 = d" using mod_add_multiple [of d 32 6] d by simp
  have "utf8_decoder 0 0 0 0x80 0xBF ((0xC0 + d) # (0x80 + m) # rest) =
        utf8_decoder d 0 1 0x80 0xBF ((0x80 + m) # rest)"
    using d by (simp add: decoder_lead2 a)
  also have "\<dots> = (d * 0x40 + m) # utf8_decoder 0 0 0 0x80 0xBF rest"
    using m by (simp add: decoder_last continuation_mod)
  also have "\<dots> = c # utf8_decoder 0 0 0 0x80 0xBF rest"
    by (simp add: c)
  finally show ?thesis by (simp only: enc append_Cons append_Nil)
qed

lemma utf8_roundtrip_3:
  assumes "0x800 \<le> c" "c < 0x10000" "\<not> (0xD800 \<le> c \<and> c \<le> 0xDFFF)"
  shows "utf8_decoder 0 0 0 0x80 0xBF (utf8_encode_code_point c @ rest) =
         c # utf8_decoder 0 0 0 0x80 0xBF rest"
proof -
  define B where "B = c div 0x40"
  define m where "m = c mod 0x40"
  define d where "d = B div 0x40"
  define e where "e = B mod 0x40"
  have c: "c = B * 0x40 + m" and m: "m < 0x40" by (simp_all add: B_def m_def)
  have B: "B = d * 0x40 + e" and e: "e < 0x40" by (simp_all add: d_def e_def)
  have d_eq: "c div 0x1000 = d"
    using div_mult2_eq [of c "0x40" "0x40"] by (simp add: d_def B_def)
  from assms c m B e have d: "d < 0x10" by linarith
  have enc: "utf8_encode_code_point c = [0xE0 + d, 0x80 + e, 0x80 + m]"
    using assms d_eq by (simp add: utf8_encode_code_point_def e_def B_def m_def)
  have a: "(0xE0 + d) mod 0x10 = d" using mod_add_multiple [of d 16 14] d by simp
  have lo: "d = 0 \<Longrightarrow> 0x20 \<le> e" using assms c m B e by linarith
  have hi: "d = 0xD \<Longrightarrow> e < 0x20" using assms c m B e by linarith
  let ?lo = "if 0xE0 + d = 0xE0 then 0xA0 else (0x80::nat)"
  let ?hi = "if 0xE0 + d = 0xED then 0x9F else (0xBF::nat)"
  have bounds: "?lo \<le> 0x80 + e" "0x80 + e \<le> ?hi"
    using e lo hi by auto
  have "utf8_decoder 0 0 0 0x80 0xBF ((0xE0 + d) # (0x80 + e) # (0x80 + m) # rest) =
        utf8_decoder ((0xE0 + d) mod 0x10) 0 2 ?lo ?hi ((0x80 + e) # (0x80 + m) # rest)"
    by (rule decoder_lead3) (use d in simp_all)
  also have "\<dots> = utf8_decoder d 0 2 ?lo ?hi ((0x80 + e) # (0x80 + m) # rest)"
    by (simp only: a)
  also have "\<dots> = utf8_decoder (d * 0x40 + (0x80 + e) mod 0x40) (Suc 0) 2 0x80 0xBF
                      ((0x80 + m) # rest)"
    by (rule decoder_continue) (use bounds in simp_all)
  also have "\<dots> = utf8_decoder (d * 0x40 + e) (Suc 0) 2 0x80 0xBF ((0x80 + m) # rest)"
    by (simp only: continuation_mod [OF e])
  also have "\<dots> = ((d * 0x40 + e) * 0x40 + (0x80 + m) mod 0x40) #
                    utf8_decoder 0 0 0 0x80 0xBF rest"
    by (rule decoder_last) (use m in simp_all)
  also have "\<dots> = c # utf8_decoder 0 0 0 0x80 0xBF rest"
    by (simp only: continuation_mod [OF m]) (simp add: c B)
  finally show ?thesis by (simp only: enc append_Cons append_Nil)
qed

lemma utf8_roundtrip_4:
  assumes "0x10000 \<le> c" "c < 0x110000"
  shows "utf8_decoder 0 0 0 0x80 0xBF (utf8_encode_code_point c @ rest) =
         c # utf8_decoder 0 0 0 0x80 0xBF rest"
proof -
  define B where "B = c div 0x40"
  define m where "m = c mod 0x40"
  define C where "C = B div 0x40"
  define e where "e = B mod 0x40"
  define d where "d = C div 0x40"
  define f where "f = C mod 0x40"
  have c: "c = B * 0x40 + m" and m: "m < 0x40" by (simp_all add: B_def m_def)
  have B: "B = C * 0x40 + e" and e: "e < 0x40" by (simp_all add: C_def e_def)
  have C: "C = d * 0x40 + f" and f: "f < 0x40" by (simp_all add: d_def f_def)
  have C_eq: "c div 0x1000 = C"
    using div_mult2_eq [of c "0x40" "0x40"] by (simp add: C_def B_def)
  have d_eq: "c div 0x40000 = d"
    using div_mult2_eq [of c "0x1000" "0x40"] C_eq by (simp add: d_def)
  from assms c m B e C f have d: "d \<le> 4" by linarith
  have enc: "utf8_encode_code_point c = [0xF0 + d, 0x80 + f, 0x80 + e, 0x80 + m]"
    using assms d_eq C_eq by (simp add: utf8_encode_code_point_def e_def f_def B_def m_def)
  have a: "(0xF0 + d) mod 0x8 = d" using mod_add_multiple [of d 8 30] d by simp
  have lo: "d = 0 \<Longrightarrow> 0x10 \<le> f" using assms c m B e C f by linarith
  have hi: "d = 4 \<Longrightarrow> f < 0x10" using assms c m B e C f by linarith
  let ?lo = "if 0xF0 + d = 0xF0 then 0x90 else (0x80::nat)"
  let ?hi = "if 0xF0 + d = 0xF4 then 0x8F else (0xBF::nat)"
  have bounds: "?lo \<le> 0x80 + f" "0x80 + f \<le> ?hi"
    using f lo hi by auto
  have "utf8_decoder 0 0 0 0x80 0xBF
          ((0xF0 + d) # (0x80 + f) # (0x80 + e) # (0x80 + m) # rest) =
        utf8_decoder ((0xF0 + d) mod 0x8) 0 3 ?lo ?hi
          ((0x80 + f) # (0x80 + e) # (0x80 + m) # rest)"
    by (rule decoder_lead4) (use d in simp_all)
  also have "\<dots> = utf8_decoder d 0 3 ?lo ?hi ((0x80 + f) # (0x80 + e) # (0x80 + m) # rest)"
    by (simp only: a)
  also have "\<dots> = utf8_decoder (d * 0x40 + (0x80 + f) mod 0x40) (Suc 0) 3 0x80 0xBF
                      ((0x80 + e) # (0x80 + m) # rest)"
    by (rule decoder_continue) (use bounds in simp_all)
  also have "\<dots> = utf8_decoder (d * 0x40 + f) (Suc 0) 3 0x80 0xBF
                      ((0x80 + e) # (0x80 + m) # rest)"
    by (simp only: continuation_mod [OF f])
  also have "\<dots> = utf8_decoder ((d * 0x40 + f) * 0x40 + (0x80 + e) mod 0x40) (Suc (Suc 0)) 3
                      0x80 0xBF ((0x80 + m) # rest)"
    by (rule decoder_continue) (use e in simp_all)
  also have "\<dots> = utf8_decoder ((d * 0x40 + f) * 0x40 + e) (Suc (Suc 0)) 3 0x80 0xBF
                      ((0x80 + m) # rest)"
    by (simp only: continuation_mod [OF e])
  also have "\<dots> = (((d * 0x40 + f) * 0x40 + e) * 0x40 + (0x80 + m) mod 0x40) #
                    utf8_decoder 0 0 0 0x80 0xBF rest"
    by (rule decoder_last) (use m in simp_all)
  also have "\<dots> = c # utf8_decoder 0 0 0 0x80 0xBF rest"
    by (simp only: continuation_mod [OF m]) (simp add: c B C)
  finally show ?thesis by (simp only: enc append_Cons append_Nil)
qed

lemma utf8_decoder_roundtrip:
  assumes "scalar c"
  shows "utf8_decoder 0 0 0 0x80 0xBF (utf8_encode_code_point c @ rest) =
         c # utf8_decoder 0 0 0 0x80 0xBF rest"
proof -
  from assms have "c < 0x110000" and "\<not> (0xD800 \<le> c \<and> c \<le> 0xDFFF)"
    by (simp_all add: scalar_def)
  moreover consider "c < 0x80" | "0x80 \<le> c \<and> c < 0x800"
    | "0x800 \<le> c \<and> c < 0x10000" | "0x10000 \<le> c"
    by linarith
  ultimately show ?thesis
    using utf8_roundtrip_1 [of c rest] utf8_roundtrip_2 [of c rest]
      utf8_roundtrip_3 [of c rest] utf8_roundtrip_4 [of c rest]
    by metis
qed

lemma utf8_decode_encode:
  "\<forall>c \<in> set cs. scalar c \<Longrightarrow> utf8_decode (utf8_encode cs) = cs"
  unfolding utf8_decode_def utf8_encode_def
  by (induction cs) (simp_all add: utf8_decoder_roundtrip utf8_decoder.simps(1))

subsection \<open>Percent-encoding: decoding inverts encoding\<close>

lemma unat_of_nat_16: "n < 65536 \<Longrightarrow> unat (of_nat n :: 16 word) = n"
  by (simp add: unat_of_nat)

lemma unat_less_16: "unat (w :: 16 word) < 65536"
  using unsigned_less [of w] by simp

lemma unat_hex_digit: "n < 16 \<Longrightarrow> unat (hex_digit n) = (if n < 10 then 0x30 + n else 0x37 + n)"
  by (simp add: hex_digit_def unat_of_nat_16)

lemma hex_digit_roundtrip:
  assumes "n < 16"
  shows "is_hex_digit (unat (hex_digit n))" and "hex_value (unat (hex_digit n)) = n"
  using assms by (auto simp add: unat_hex_digit is_hex_digit_def hex_value_def)

lemma hex_digit_char: "n < 16 \<Longrightarrow> component_char (hex_digit n)"
  by (auto simp add: component_char_def unat_hex_digit)

lemma percent_decode_Cons: "b \<noteq> 0x25 \<Longrightarrow> percent_decode (b # bs) = b # percent_decode bs"
proof (cases bs)
  case Nil then show ?thesis by simp
next
  case (Cons h hs)
  assume "b \<noteq> 0x25"
  with Cons show ?thesis by (cases hs) simp_all
qed

lemma percent_decode_octet:
  assumes "b < 256"
  shows "percent_decode (map unat (percent_encode_octet b) @ rest) = b # percent_decode rest"
proof -
  have "b div 16 < 16" "b mod 16 < 16" using assms by simp_all
  then show ?thesis
    by (simp add: percent_encode_octet_def hex_digit_roundtrip)
qed

lemma percent_decode_octets:
  "\<forall>b \<in> set bs. b < 256 \<Longrightarrow>
   percent_decode (map unat (concat (map percent_encode_octet bs)) @ rest) = bs @ percent_decode rest"
proof (induction bs)
  case Nil then show ?case by simp
next
  case (Cons b bs)
  then show ?case using percent_decode_octet [of b] by simp
qed

lemma percent_encode_octet_chars:
  "b < 256 \<Longrightarrow> \<forall>u \<in> set (percent_encode_octet b). component_char u"
  by (simp add: percent_encode_octet_def hex_digit_char) (simp add: component_char_def)

lemma utf8_bytes_less:
  "c < 0x110000 \<Longrightarrow> \<forall>b \<in> set (utf8_encode_code_point c). b < 256"
  by (auto simp add: utf8_encode_code_point_def)

lemma scalar_less: "scalar c \<Longrightarrow> c < 0x110000"
  by (simp add: scalar_def)

lemma unescaped_code_less: "unescaped_code c \<Longrightarrow> c < 0x80 \<and> c \<notin> {0x25, 0x26, 0x2B, 0x3D, 0x3F}"
  by (auto simp add: unescaped_code_def)

lemma encode_code_point_chars:
  assumes "scalar c"
  shows "\<forall>u \<in> set (encode_code_point c). component_char u"
proof (cases "unescaped_code c")
  case True
  with unescaped_code_less [of c] show ?thesis
    by (simp add: encode_code_point_def component_char_def unat_of_nat_16)
next
  case False
  with utf8_bytes_less [OF scalar_less [OF assms]] percent_encode_octet_chars
  show ?thesis by (auto simp add: encode_code_point_def percent_encode_code_point_def)
qed

lemma percent_decode_code_point:
  assumes "scalar c"
  shows "percent_decode (map unat (encode_code_point c) @ rest) =
         utf8_encode_code_point c @ percent_decode rest"
proof (cases "unescaped_code c")
  case True
  with unescaped_code_less [of c] show ?thesis
    by (simp add: encode_code_point_def unat_of_nat_16 percent_decode_Cons
          utf8_encode_code_point_def)
next
  case False
  with utf8_bytes_less [OF scalar_less [OF assms]] show ?thesis
    by (simp add: encode_code_point_def percent_encode_code_point_def percent_decode_octets)
qed

lemma percent_decode_code_points:
  "\<forall>c \<in> set cs. scalar c \<Longrightarrow>
   percent_decode (map unat (concat (map encode_code_point cs))) = utf8_encode cs"
  by (induction cs) (simp_all add: percent_decode_code_point utf8_encode_def)

lemma plus_to_space_chars:
  "\<forall>u \<in> set q. component_char u \<Longrightarrow> plus_to_space (map unat q) = map unat q"
  by (induction q) (simp_all add: plus_to_space_def component_char_def)

subsection \<open>UTF-16 and \<open>Encode\<close> on well-formed strings\<close>

lemma surrogate_pair:
  assumes "is_leading_surrogate c" and "is_trailing_surrogate d"
  shows "scalar (UTF16SurrogatePairToCodePoint c d)"
    and "\<not> unescaped_code (UTF16SurrogatePairToCodePoint c d)"
    and "utf16_encode_code_point (UTF16SurrogatePairToCodePoint c d) = [c, d]"
proof -
  define a where "a = unat c - 0xD800"
  define b where "b = unat d - 0xDC00"
  from assms have range: "0xD800 \<le> unat c" "unat c \<le> 0xDBFF" "0xDC00 \<le> unat d" "unat d \<le> 0xDFFF"
    by (simp_all add: is_leading_surrogate_def is_trailing_surrogate_def)
  then have a: "a < 0x400" and c: "unat c = 0xD800 + a"
    and b: "b < 0x400" and d: "unat d = 0xDC00 + b"
    unfolding a_def b_def by linarith+
  have p: "UTF16SurrogatePairToCodePoint c d = 0x10000 + (a * 0x400 + b)"
    by (simp add: UTF16SurrogatePairToCodePoint_def a_def b_def)
  have ab: "a * 0x400 + b < 0x100000" using a b by linarith
  show "scalar (UTF16SurrogatePairToCodePoint c d)"
    using ab by (simp add: p scalar_def)
  show "\<not> unescaped_code (UTF16SurrogatePairToCodePoint c d)"
    using unescaped_code_less [of "UTF16SurrogatePairToCodePoint c d"] by (auto simp add: p)
  have "(a * 0x400 + b) div 0x400 = a" and "(a * 0x400 + b) mod 0x400 = b"
    using b by simp_all
  then have "utf16_encode_code_point (UTF16SurrogatePairToCodePoint c d) =
             [of_nat (unat c), of_nat (unat d)]"
    by (simp add: p utf16_encode_code_point_def c d)
  then show "utf16_encode_code_point (UTF16SurrogatePairToCodePoint c d) = [c, d]"
    by simp
qed

lemma no_surrogate:
  assumes "\<not> is_leading_surrogate c" and "\<not> is_trailing_surrogate c"
  shows "scalar (unat c)" and "utf16_encode_code_point (unat c) = [c]"
  using assms unat_less_16 [of c]
  by (auto simp add: scalar_def is_leading_surrogate_def is_trailing_surrogate_def
        utf16_encode_code_point_def)

lemma unescaped_no_surrogate:
  "unescaped c \<Longrightarrow> \<not> is_leading_surrogate c \<and> \<not> is_trailing_surrogate c"
  using unescaped_code_less [of "unat c"]
  by (auto simp add: unescaped_def is_leading_surrogate_def is_trailing_surrogate_def)

lemma leading_not_trailing: "is_leading_surrogate c \<Longrightarrow> \<not> is_trailing_surrogate c"
  by (simp add: is_leading_surrogate_def is_trailing_surrogate_def)

lemma Encode_no_surrogate:
  assumes "\<not> is_leading_surrogate c" and "\<not> is_trailing_surrogate c"
    and "Encode cs = Inr r"
  shows "Encode (c # cs) = Inr (encode_code_point (unat c) @ r)"
  using assms by (simp add: encode_code_point_def unescaped_def)

lemma Encode_pair:
  assumes "is_leading_surrogate c" and "is_trailing_surrogate d" and "Encode ds = Inr r"
  shows "Encode (c # d # ds) =
         Inr (encode_code_point (UTF16SurrogatePairToCodePoint c d) @ r)"
  using assms unescaped_no_surrogate [of c] surrogate_pair(2) [of c d]
  by (auto simp add: encode_code_point_def leading_not_trailing)

lemma well_formed_scalars:
  "well_formed v \<Longrightarrow>
   (\<forall>c \<in> set (to_scalar_values v). scalar c) \<and>
   utf16_encode (to_scalar_values v) = v \<and>
   Encode v = Inr (encoded v)"
proof (induction v rule: well_formed.induct)
  case 1
  show ?case by (simp add: utf16_encode_def encoded_def)
next
  case (2 c)
  then have ns: "\<not> is_leading_surrogate c" "\<not> is_trailing_surrogate c" by simp_all
  have "Encode [c] = Inr (encode_code_point (unat c) @ [])"
    by (rule Encode_no_surrogate [OF ns]) simp
  with ns no_surrogate [OF ns] show ?case
    by (simp add: utf16_encode_def encoded_def)
next
  case (3 c d ds)
  show ?case
  proof (cases "is_leading_surrogate c")
    case True
    with "3.prems" have t: "is_trailing_surrogate d" and wf: "well_formed ds" by simp_all
    from "3.IH"(1) [OF True wf]
    have ih: "\<forall>c \<in> set (to_scalar_values ds). scalar c"
      "utf16_encode (to_scalar_values ds) = ds" "Encode ds = Inr (encoded ds)"
      by simp_all
    have sv: "to_scalar_values (c # d # ds) =
              UTF16SurrogatePairToCodePoint c d # to_scalar_values ds"
      using True t by simp
    show ?thesis
      unfolding sv
      using True t ih surrogate_pair [OF True t] Encode_pair [OF True t ih(3)]
      by (simp add: utf16_encode_def encoded_def)
  next
    case False
    with "3.prems" have nt: "\<not> is_trailing_surrogate c" and wf: "well_formed (d # ds)"
      by simp_all
    from "3.IH"(2) [OF False wf]
    have ih: "\<forall>c \<in> set (to_scalar_values (d # ds)). scalar c"
      "utf16_encode (to_scalar_values (d # ds)) = d # ds"
      "Encode (d # ds) = Inr (encoded (d # ds))"
      by simp_all
    have sv: "to_scalar_values (c # d # ds) = unat c # to_scalar_values (d # ds)"
      using False nt by simp
    show ?thesis
      unfolding sv
      using False nt ih no_surrogate [OF False nt] Encode_no_surrogate [OF False nt ih(3)]
      by (simp add: utf16_encode_def encoded_def)
  qed
qed

lemma encoded_chars:
  assumes "well_formed v"
  shows "\<forall>u \<in> set (encoded v). component_char u"
  using well_formed_scalars [OF assms] encode_code_point_chars
  by (auto simp add: encoded_def)

lemma decode_encoded:
  assumes "well_formed v"
  shows "decode_component (map unat (encoded v)) = v"
proof -
  from well_formed_scalars [OF assms]
  have sc: "\<forall>c \<in> set (to_scalar_values v). scalar c"
    and u16: "utf16_encode (to_scalar_values v) = v" by simp_all
  have "plus_to_space (map unat (encoded v)) = map unat (encoded v)"
    by (rule plus_to_space_chars [OF encoded_chars [OF assms]])
  moreover have "percent_decode (map unat (encoded v)) = utf8_encode (to_scalar_values v)"
    unfolding encoded_def by (rule percent_decode_code_points [OF sc])
  ultimately show ?thesis
    by (simp add: decode_component_def utf8_decode_encode [OF sc] u16)
qed

subsection \<open>The query string and its parsing\<close>

lemma ascii_scalar_values:
  "\<forall>u \<in> set q. unat u < 0x80 \<Longrightarrow> to_scalar_values q = map unat q"
proof (induction q rule: to_scalar_values.induct)
  case 1
  show ?case by simp
next
  case (2 c)
  then show ?case
    by (simp add: is_leading_surrogate_def is_trailing_surrogate_def)
next
  case (3 c d ds)
  then have c: "unat c < 0x80" and rest: "\<forall>u \<in> set (d # ds). unat u < 0x80" by simp_all
  from c have ns: "\<not> is_leading_surrogate c" "\<not> is_trailing_surrogate c"
    by (simp_all add: is_leading_surrogate_def is_trailing_surrogate_def)
  from "3.IH"(3) ns rest
  have "to_scalar_values (d # ds) = map unat (d # ds)" by simp
  with ns show ?case by simp
qed

lemma ascii_utf8_encode: "\<forall>b \<in> set bs. b < 0x80 \<Longrightarrow> utf8_encode bs = bs"
  by (induction bs) (simp_all add: utf8_encode_def utf8_encode_code_point_def)

lemma key_name_unescaped: "\<forall>u \<in> set (key_name k). unescaped u"
  by (cases k) (simp_all add: js_def unescaped_def unescaped_code_def)

lemma key_name_inj: "(key_name k = key_name k') = (k = k')"
  by (cases k; cases k') (simp_all add: js_def)

lemma unescaped_component_char: "unescaped u \<Longrightarrow> component_char u"
  using unescaped_code_less [of "unat u"] by (simp add: unescaped_def component_char_def)

lemma Encode_unescaped: "\<forall>u \<in> set s. unescaped u \<Longrightarrow> Encode s = Inr s"
  by (induction s) simp_all

lemma well_formed_unescaped: "\<forall>u \<in> set s. unescaped u \<Longrightarrow> well_formed s"
  by (induction s rule: well_formed.induct) (simp_all add: unescaped_no_surrogate)

lemma encoded_unescaped:
  assumes "\<forall>u \<in> set s. unescaped u"
  shows "encoded s = s"
  using well_formed_scalars [OF well_formed_unescaped [OF assms]] Encode_unescaped [OF assms]
  by simp

lemma decode_key_name: "decode_component (map unat (key_name k)) = key_name k"
  using decode_encoded [OF well_formed_unescaped [OF key_name_unescaped [of k]]]
  by (simp add: encoded_unescaped [OF key_name_unescaped])

lemma query_entry_mirrored:
  assumes "value_truthy (snd kv)" and "mirrored kv"
  shows "query_entry kv = Inr (query_part kv)"
proof -
  have k: "encodeURIComponent (key_name (fst kv)) = Inr (key_name (fst kv))"
    by (simp add: encodeURIComponent_def Encode_unescaped [OF key_name_unescaped])
  from assms have wf: "well_formed (serialized (snd kv))"
    and ser: "serializeValue (snd kv) = Inr (serialized (snd kv))"
    by (auto simp add: mirrored_def value_truthy_def serialized_def serializeValue_def
          split: option.splits param_value.splits)
  from well_formed_scalars [OF wf]
  have "encodeURIComponent (serialized (snd kv)) = Inr (encoded (serialized (snd kv)))"
    by (simp add: encodeURIComponent_def)
  with k ser show ?thesis by (simp add: query_entry_def query_part_def)
qed

lemma map_raising_Inr:
  "\<forall>x \<in> set xs. f x = Inr (g x) \<Longrightarrow> map_raising f xs = Inr (map g xs)"
  by (induction xs) simp_all

lemma navigate_query_mirrored:
  assumes "\<forall>kv \<in> set s. mirrored kv"
  shows "navigate_query s =
         Inr (join (js ''&'') (map query_part (filter (\<lambda>kv. value_truthy (snd kv)) s)))"
proof -
  have "map_raising query_entry (filter (\<lambda>kv. value_truthy (snd kv)) s) =
        Inr (map query_part (filter (\<lambda>kv. value_truthy (snd kv)) s))"
    by (rule map_raising_Inr) (use assms in \<open>simp add: query_entry_mirrored\<close>)
  then show ?thesis by (simp add: navigate_query_def)
qed

lemma split_on_piece:
  "sep \<notin> set p \<Longrightarrow> split_on sep p = [p]"
  by (induction p) simp_all

lemma split_on_append:
  "sep \<notin> set p \<Longrightarrow> split_on sep (p @ sep # rest) = p # split_on sep rest"
  by (induction p) simp_all

lemma split_on_join:
  assumes "ps \<noteq> []" and "\<forall>p \<in> set ps. 0x26 \<notin> set (map unat p)"
  shows "split_on 0x26 (map unat (join (js ''&'') ps)) = map (map unat) ps"
  using assms
proof (induction "js ''&''" ps rule: join.induct)
  case 1
  then show ?case by simp
next
  case (2 x)
  then show ?case by (simp add: split_on_piece)
next
  case (3 x y ys)
  then have x: "0x26 \<notin> set (map unat x)"
    and rest: "split_on 0x26 (map unat (join (js ''&'') (y # ys))) = map (map unat) (y # ys)"
    by simp_all
  have "map unat (join (js ''&'') (x # y # ys)) =
        map unat x @ 0x26 # map unat (join (js ''&'') (y # ys))"
    by (simp add: js_def)
  with split_on_append [OF x] rest show ?case by simp
qed

lemma join_chars:
  "\<forall>p \<in> set ps. \<forall>u \<in> set p. P u \<Longrightarrow> \<forall>u \<in> set sep. P u \<Longrightarrow>
   \<forall>u \<in> set (join sep ps). P u"
  by (induction sep ps rule: join.induct) auto

lemma query_part_chars:
  assumes "value_truthy (snd kv)" and "mirrored kv"
  shows "\<forall>u \<in> set (query_part kv). unat u < 0x80 \<and> unat u \<notin> {0x26, 0x2B, 0x3F}"
proof -
  from assms have wf: "well_formed (serialized (snd kv))"
    by (auto simp add: mirrored_def value_truthy_def serialized_def
          split: option.splits param_value.splits)
  from encoded_chars [OF wf] key_name_unescaped [of "fst kv"] unescaped_component_char
  show ?thesis
    by (auto simp add: query_part_def component_char_def js_def)
qed

lemma takeWhile_until:
  "\<forall>x \<in> set xs. x \<noteq> a \<Longrightarrow> takeWhile (\<lambda>b. b \<noteq> a) (xs @ a # ys) = xs"
  by (induction xs) simp_all

lemma dropWhile_until:
  "\<forall>x \<in> set xs. x \<noteq> a \<Longrightarrow> dropWhile (\<lambda>b. b \<noteq> a) (xs @ a # ys) = a # ys"
  by (induction xs) simp_all

lemma query_part_split:
  assumes "value_truthy (snd kv)" and "mirrored kv"
  shows "split_name_value (map unat (query_part kv)) =
         (map unat (key_name (fst kv)), map unat (encoded (serialized (snd kv))))"
proof -
  have k: "\<forall>b \<in> set (map unat (key_name (fst kv))). b \<noteq> 0x3D"
    using key_name_unescaped [of "fst kv"] unescaped_component_char
    by (auto simp add: component_char_def)
  have eq: "map unat (query_part kv) =
            map unat (key_name (fst kv)) @ 0x3D # map unat (encoded (serialized (snd kv)))"
    by (simp add: query_part_def js_def)
  have "takeWhile (\<lambda>b. b \<noteq> 0x3D) (map unat (query_part kv)) = map unat (key_name (fst kv))"
    unfolding eq by (rule takeWhile_until [OF k])
  moreover
  have "dropWhile (\<lambda>b. b \<noteq> 0x3D) (map unat (query_part kv)) =
        0x3D # map unat (encoded (serialized (snd kv)))"
    unfolding eq by (rule dropWhile_until [OF k])
  moreover have "0x3D \<in> set (map unat (query_part kv))"
    unfolding eq by simp
  ultimately show ?thesis by (simp add: split_name_value_def)
qed

lemma query_part_decoded:
  assumes "value_truthy (snd kv)" and "mirrored kv"
  shows "(case split_name_value (map unat (query_part kv)) of
            (name, val) \<Rightarrow> (decode_component name, decode_component val)) =
         (key_name (fst kv), serialized (snd kv))"
proof -
  from assms have wf: "well_formed (serialized (snd kv))"
    by (auto simp add: mirrored_def value_truthy_def serialized_def
          split: option.splits param_value.splits)
  show ?thesis
    by (simp add: query_part_split [OF assms] decode_key_name decode_encoded [OF wf])
qed

lemma parse_urlencoded_query:
  assumes "\<forall>kv \<in> set es. value_truthy (snd kv) \<and> mirrored kv"
  shows "parse_urlencoded (map unat (join (js ''&'') (map query_part es))) =
         map (\<lambda>kv. (key_name (fst kv), serialized (snd kv))) es"
proof (cases "es = []")
  case True
  then show ?thesis by (simp add: parse_urlencoded_def)
next
  case False
  have amp: "\<forall>p \<in> set (map query_part es). 0x26 \<notin> set (map unat p)"
    using assms query_part_chars by fastforce
  have ne: "\<forall>p \<in> set (map query_part es). map unat p \<noteq> []"
    by (simp add: query_part_def js_def)
  from False have "map query_part es \<noteq> []" by simp
  from split_on_join [OF this amp]
  have "filter (\<lambda>bytes. bytes \<noteq> [])
          (split_on 0x26 (map unat (join (js ''&'') (map query_part es)))) =
        map (map unat) (map query_part es)"
    using ne by (simp add: filter_id_conv)
  then show ?thesis
    using assms by (simp add: parse_urlencoded_def query_part_decoded)
qed

lemma URLSearchParams_ascii:
  assumes "\<forall>u \<in> set q. unat u < 0x80 \<and> unat u \<noteq> 0x3F"
  shows "URLSearchParams q = parse_urlencoded (map unat q)"
    and "URLSearchParams (js ''?'' @ q) = parse_urlencoded (map unat q)"
proof -
  from assms have a: "\<forall>u \<in> set q. unat u < 0x80" by simp
  then have b: "\<forall>b \<in> set (map unat q). b < 0x80" by simp
  from a have a': "\<forall>u \<in> set (js ''?'' @ q). unat u < 0x80" by (simp add: js_def)
  have sv: "to_scalar_values q = map unat q"
    by (rule ascii_scalar_values [OF a])
  have sv': "to_scalar_values (js ''?'' @ q) = 0x3F # map unat q"
    using ascii_scalar_values [OF a'] by (simp add: js_def)
  have strip: "(case map unat q of [] \<Rightarrow> [] | c # cs \<Rightarrow> if c = 0x3F then cs else map unat q) =
               map unat q"
    using assms by (cases q) simp_all
  show "URLSearchParams q = parse_urlencoded (map unat q)"
    unfolding URLSearchParams_def Let_def sv strip by (simp only: ascii_utf8_encode [OF b])
  show "URLSearchParams (js ''?'' @ q) = parse_urlencoded (map unat q)"
    unfolding URLSearchParams_def Let_def sv' by (simp add: ascii_utf8_encode [OF b])
qed

lemma map_of_renamed:
  "map_of (map (\<lambda>kv. (key_name (fst kv), f (snd kv))) es) (key_name k) =
   map_option f (map_of es k)"
  by (induction es) (auto simp add: key_name_inj)

lemma map_of_filter_distinct:
  "distinct (map fst s) \<Longrightarrow>
   map_of (filter (\<lambda>kv. P (snd kv)) s) k =
   (case map_of s k of None \<Rightarrow> None | Some v \<Rightarrow> if P v then Some v else None)"
proof (induction s)
  case Nil
  show ?case by simp
next
  case (Cons kv s)
  then have ih: "map_of (filter (\<lambda>kv. P (snd kv)) s) k =
      (case map_of s k of None \<Rightarrow> None | Some v \<Rightarrow> if P v then Some v else None)"
    and fresh: "fst kv \<notin> fst ` set s" by simp_all
  show ?case
  proof (cases "fst kv = k")
    case True
    with fresh have "map_of s k = None" by (simp add: map_of_eq_None_iff)
    with True ih show ?thesis by (cases kv) simp
  next
    case False
    with ih show ?thesis by (cases kv) simp
  qed
qed

lemma params_get_query:
  assumes "distinct (map fst s)" and "\<forall>kv \<in> set s. mirrored kv"
    and "params = parse_urlencoded (map unat (join (js ''&'')
           (map query_part (filter (\<lambda>kv. value_truthy (snd kv)) s))))"
  shows "params_get params (key_name k) =
         (case map_of s k of
            None \<Rightarrow> None
          | Some v \<Rightarrow> if value_truthy v then Some (serialized v) else None)"
proof -
  have "\<forall>kv \<in> set (filter (\<lambda>kv. value_truthy (snd kv)) s). value_truthy (snd kv) \<and> mirrored kv"
    using assms(2) by simp
  from parse_urlencoded_query [OF this] assms(3)
  have "params = map (\<lambda>kv. (key_name (fst kv), serialized (snd kv)))
                   (filter (\<lambda>kv. value_truthy (snd kv)) s)"
    by simp
  then show ?thesis
    by (simp add: params_get_def map_of_renamed map_of_filter_distinct [OF assms(1)]
          split: option.splits)
qed

lemma get_parse_query:
  assumes "distinct (map fst s)" and "\<forall>kv \<in> set s. mirrored kv"
    and "URLSearchParams search = parse_urlencoded (map unat (join (js ''&'')
           (map query_part (filter (\<lambda>kv. value_truthy (snd kv)) s))))"
  shows "get p (parse search) = get p s"
proof -
  obtain k where p: "p = RouterParam k" by (cases p)
  let ?found = "\<lambda>k. case map_of s k of
                       None \<Rightarrow> None
                     | Some v \<Rightarrow> if value_truthy v then Some (serialized v) else None"
  note g = params_get_query [OF assms(1,2,3)]
  have g_tab: "params_get (URLSearchParams search) (js ''tab'') = ?found tab"
    using g [of tab] by simp
  have g_reference: "params_get (URLSearchParams search) (js ''reference'') = ?found reference"
    using g [of reference] by simp
  have g_explore: "params_get (URLSearchParams search) (js ''explore'') = ?found explore"
    using g [of explore] by simp
  have m: "map_of s k = Some v \<Longrightarrow> mirrored (k, v)" for v
    using assms(2) map_of_SomeD [of s k v] by blast
  show ?thesis
  proof (cases "map_of s k")
    case None
    then show ?thesis
      unfolding p parse_def Let_def g_tab g_reference g_explore
      by (cases k) (simp_all add: get_def anchorForParam_def)
  next
    case (Some v)
    from m [OF Some] Some show ?thesis
      unfolding p parse_def Let_def g_tab g_reference g_explore
      by (cases k)
         (auto simp add: get_def anchorForParam_def mirrored_def value_truthy_def
            serialized_def split: option.splits param_value.splits)
  qed
qed

subsection \<open>The state and the URL\<close>

text \<open>
  C5, as amended. For every router state whose properties have distinct names and are
  each either \<open>undefined\<close> or mirrored by the URL (\<open>tab\<close> a well-formed string that is not
  empty, \<open>reference\<close> and \<open>explore\<close> an anchor whose id is a well-formed string that is
  not empty), \<open>navigate\<close> builds a query string without failing, and \<open>parse\<close> of that
  query string, with or without the leading \<open>?\<close>, gives a state with the same value as
  the original for every router parameter.
\<close>

theorem router_state_roundtrip:
  "distinct (map fst s) \<and> (\<forall>kv \<in> set s. mirrored kv) \<longrightarrow>
   (\<exists>q. navigate_query s = Inr q \<and>
        (\<forall>p. get p (parse q) = get p s) \<and>
        (\<forall>p. get p (parse (js ''?'' @ q)) = get p s))"
proof
  assume h: "distinct (map fst s) \<and> (\<forall>kv \<in> set s. mirrored kv)"
  let ?es = "filter (\<lambda>kv. value_truthy (snd kv)) s"
  let ?q = "join (js ''&'') (map query_part ?es)"
  have q: "navigate_query s = Inr ?q"
    using h by (simp add: navigate_query_mirrored)
  have "\<forall>p \<in> set (map query_part ?es). \<forall>u \<in> set p. unat u < 0x80 \<and> unat u \<noteq> 0x3F"
    using h query_part_chars by fastforce
  then have "\<forall>u \<in> set ?q. unat u < 0x80 \<and> unat u \<noteq> 0x3F"
    by (rule join_chars) (simp add: js_def)
  note u = URLSearchParams_ascii [OF this]
  from h have d: "distinct (map fst s)" and mi: "\<forall>kv \<in> set s. mirrored kv" by simp_all
  have "\<forall>p. get p (parse ?q) = get p s"
    using get_parse_query [OF d mi u(1)] by simp
  moreover have "\<forall>p. get p (parse (js ''?'' @ ?q)) = get p s"
    using get_parse_query [OF d mi u(2)] by simp
  ultimately show "\<exists>q. navigate_query s = Inr q \<and>
        (\<forall>p. get p (parse q) = get p s) \<and>
        (\<forall>p. get p (parse (js ''?'' @ q)) = get p s)"
    using q by blast
qed

lemma example_query:
  "navigate_query example_state = Inr (js ''tab=a%20b%26c&reference=%F0%9F%98%80'')"
  by (simp add: navigate_query_def example_state_def value_truthy_def query_entry_def
        encodeURIComponent_def serializeValue_def js_def unescaped_def unescaped_code_def
        is_leading_surrogate_def is_trailing_surrogate_def percent_encode_code_point_def
        utf8_encode_code_point_def UTF16SurrogatePairToCodePoint_def percent_encode_octet_def
        hex_digit_def)

lemma example_mirrored:
  "distinct (map fst example_state) \<and> list_all mirrored example_state"
  by (simp add: example_state_def mirrored_def js_def is_leading_surrogate_def
        is_trailing_surrogate_def)

theorem router_state_roundtrip_witness:
  "distinct (map fst example_state) \<and> list_all mirrored example_state \<and>
   navigate_query example_state = Inr (js ''tab=a%20b%26c&reference=%F0%9F%98%80'') \<and>
   get RouterParam_tab (parse (js ''tab=a%20b%26c&reference=%F0%9F%98%80'')) =
     Some (StringValue (js ''a b&c'')) \<and>
   get RouterParam_reference (parse (js ''?tab=a%20b%26c&reference=%F0%9F%98%80'')) =
     Some (AnchorValue \<lparr>anchor_id = [0xD83D, 0xDE00]\<rparr>) \<and>
   get RouterParam_explore (parse (js ''tab=a%20b%26c&reference=%F0%9F%98%80'')) = None"
proof -
  let ?q = "js ''tab=a%20b%26c&reference=%F0%9F%98%80''"
  note m = example_mirrored
  then have h: "distinct (map fst example_state) \<and> (\<forall>kv \<in> set example_state. mirrored kv)"
    by (simp add: list_all_iff)
  from router_state_roundtrip [of example_state] h
  obtain q where q: "navigate_query example_state = Inr q"
    and a: "\<forall>p. get p (parse q) = get p example_state"
    and b: "\<forall>p. get p (parse (js ''?'' @ q)) = get p example_state"
    by blast
  from q example_query have eq: "q = ?q" by simp
  have "get RouterParam_tab (parse ?q) = get RouterParam_tab example_state"
    using a eq by blast
  moreover have "get RouterParam_explore (parse ?q) = get RouterParam_explore example_state"
    using a eq by blast
  moreover have "get RouterParam_reference (parse (js ''?'' @ ?q)) =
                 get RouterParam_reference example_state"
    using b eq by blast
  moreover have "js ''?'' @ ?q = js ''?tab=a%20b%26c&reference=%F0%9F%98%80''"
    by (simp add: js_def)
  ultimately show ?thesis
    using m example_query
    by (simp add: get_def example_state_def RouterParam_tab_def RouterParam_reference_def
          RouterParam_explore_def)
qed

lemma parse_empty: "parse [] = [(tab, None), (reference, None), (explore, None)]"
  by (simp add: parse_def URLSearchParams_def utf8_encode_def parse_urlencoded_def
        params_get_def anchorForParam_def)

lemma empty_anchor_query:
  "navigate_query [(reference, Some (AnchorValue \<lparr>anchor_id = []\<rparr>))] = Inr (js ''reference='')"
  by (simp add: navigate_query_def value_truthy_def query_entry_def encodeURIComponent_def
        serializeValue_def js_def unescaped_def unescaped_code_def)

lemma parse_empty_anchor:
  "parse (js ''reference='') = [(tab, None), (reference, None), (explore, None)]"
  by (simp add: parse_def URLSearchParams_def js_def is_leading_surrogate_def
        is_trailing_surrogate_def utf8_encode_def utf8_encode_code_point_def
        parse_urlencoded_def split_name_value_def decode_component_def plus_to_space_def
        utf8_decode_def decoder_ascii utf8_decoder.simps(1) utf16_encode_def
        utf16_encode_code_point_def params_get_def anchorForParam_def)

text \<open>
  The claim C5 as stated fails: a state whose \<open>tab\<close> is the empty string gives the empty
  query string, which parses to a state whose \<open>tab\<close> is \<open>undefined\<close>; a state whose
  \<open>reference\<close> is an anchor with the empty id gives \<open>reference=\<close>, which parses to a state
  whose \<open>reference\<close> is \<open>undefined\<close>; and on a state holding a string with a lone
  surrogate, \<open>navigate\<close> fails with a \<open>URIError\<close> and builds no query string at all.
\<close>

theorem router_state_not_mirrored:
  "navigate_query [(tab, Some (StringValue []))] = Inr [] \<and>
   get RouterParam_tab (parse []) = None \<and>
   get RouterParam_tab [(tab, Some (StringValue []))] = Some (StringValue []) \<and>
   navigate_query [(reference, Some (AnchorValue \<lparr>anchor_id = []\<rparr>))] =
     Inr (js ''reference='') \<and>
   get RouterParam_reference (parse (js ''reference='')) = None \<and>
   get RouterParam_reference [(reference, Some (AnchorValue \<lparr>anchor_id = []\<rparr>))] =
     Some (AnchorValue \<lparr>anchor_id = []\<rparr>) \<and>
   navigate_query [(tab, Some (StringValue [0xD800]))] = Inl URIError"
proof -
  have a: "navigate_query [(tab, Some (StringValue []))] = Inr []"
    by (simp add: navigate_query_def value_truthy_def)
  have b: "get RouterParam_tab (parse []) = None"
    and c: "get RouterParam_tab [(tab, Some (StringValue []))] = Some (StringValue [])"
    by (simp_all add: parse_empty get_def RouterParam_tab_def)
  have d: "get RouterParam_reference (parse (js ''reference='')) = None"
    and e: "get RouterParam_reference [(reference, Some (AnchorValue \<lparr>anchor_id = []\<rparr>))] =
            Some (AnchorValue \<lparr>anchor_id = []\<rparr>)"
    by (simp_all add: parse_empty_anchor get_def RouterParam_reference_def)
  have f: "navigate_query [(tab, Some (StringValue [0xD800]))] = Inl URIError"
    by (simp add: navigate_query_def value_truthy_def query_entry_def encodeURIComponent_def
          serializeValue_def js_def unescaped_def unescaped_code_def is_leading_surrogate_def
          is_trailing_surrogate_def)
  from a b c d e f empty_anchor_query show ?thesis by blast
qed

end
